theory Spec2Isabelle
  imports Main "HOL-Library.Word" "HOL-Library.Signed_Division" "HOL-Library.Multiset"
    "HOL-Library.Sublist" "HOL-Library.AList"
begin

unbundle bit_operations_syntax

section \<open>The stats pipe of lib/logstorage/pipe\_stats.go\<close>

text \<open>
  The development embeds the grouped statistics engine of \<^verbatim>\<open>pipe_stats.go\<close>:
  the per-shard group map, the write path with its per-function filters, the memory
  budget protocol of \<^verbatim>\<open>pipeStatsProcessor.writeBlock\<close>, the flush with its merge
  across shards and its writer, and the result-name checks of \<^verbatim>\<open>parsePipeStats\<close>.

  Conventions. Go's \<^verbatim>\<open>int\<close>, \<^verbatim>\<open>int64\<close> and \<^verbatim>\<open>uint64\<close> are 64-bit words
  (\<open>+\<close> and \<open>-\<close> wrap, \<open><s\<close> and \<open>sint\<close> read them signed). A Go panic and an
  \<^verbatim>\<open>error\<close> return are values of the type \<open>error\<close>. A Go map is an association
  list with distinct keys; its list order stands for the (unspecified) iteration order
  of the Go map. A pointer to a group inside a map is a \<open>groupRef\<close>: the sub-map and
  the key under which the group is stored. Goroutines that work on disjoint data are run
  one after the other. The scratch buffers of a shard (\<^verbatim>\<open>brTmp\<close>, \<^verbatim>\<open>keyBuf\<close>,
  \<^verbatim>\<open>columnValues\<close>, \<^verbatim>\<open>sfpsBuf\<close>) and the chunked allocator carry no
  information between calls and are local values of the model.
\<close>

subsection \<open>Errors\<close>

type_synonym int64 = "64 word"
type_synonym uint64 = "64 word"

datatype error = Panic string | Err string

definition bindE :: "error + 'x \<Rightarrow> ('x \<Rightarrow> error + 'y) \<Rightarrow> error + 'y" where
  "bindE r k = (case r of Inl e \<Rightarrow> Inl e | Inr x \<Rightarrow> k x)"

definition nthE :: "'x list \<Rightarrow> nat \<Rightarrow> error + 'x" where
  "nthE xs i = (if i < length xs then Inr (xs ! i) else Inl (Panic ''index out of range''))"

subsection \<open>Blocks, bitmaps and by-fields\<close>

datatype valueType =
    valueTypeUnknown | valueTypeString | valueTypeDict
  | valueTypeUint8 | valueTypeUint16 | valueTypeUint32 | valueTypeUint64 | valueTypeInt64
  | valueTypeFloat64 | valueTypeIPv4 | valueTypeTimestampISO8601

record blockResultColumn =
  c_name :: string
  isConst :: bool
  valueType :: valueType
  valuesEncoded :: "string list"

record blockResult =
  rowsLen :: nat
  cs :: "blockResultColumn list"

type_synonym bitmap = "bool list"

record byStatsField =
  name :: string
  bucketSizeStr :: string
  bucketOffsetStr :: string

definition hasBucketConfig :: "byStatsField \<Rightarrow> bool" where
  "hasBucketConfig bf \<longleftrightarrow> length (bucketSizeStr bf) > 0 \<or> length (bucketOffsetStr bf) > 0"

text \<open>
  Modelled from the spec: the bitmap type (\<^verbatim>\<open>bitmap.go\<close>) is not among the sources.
  A bitmap is one bit per row of a block; \<^verbatim>\<open>init\<close> followed by \<^verbatim>\<open>setBits\<close>
  selects every row, and a bit outside the bitmap is not set.
\<close>

definition bm_init_setBits :: "nat \<Rightarrow> bitmap" where
  "bm_init_setBits n = replicate n True"

definition isSetBit :: "bitmap \<Rightarrow> nat \<Rightarrow> bool" where
  "isSetBit bm i \<longleftrightarrow> i < length bm \<and> bm ! i"

text \<open>
  Modelled from the spec: \<^verbatim>\<open>blockResult.initFromFilterAllColumns\<close> is not among the
  sources. The spec describes it as the projection of a block in which only the rows
  selected by the bitmap are visible: every column keeps its values at the selected rows
  (a constant column keeps its single value), and the number of rows is the number of
  selected rows.
\<close>

definition selectRows :: "bitmap \<Rightarrow> 'x list \<Rightarrow> 'x list" where
  "selectRows bm xs = map fst (filter snd (zip xs bm))"

definition filterColumn :: "bitmap \<Rightarrow> blockResultColumn \<Rightarrow> blockResultColumn" where
  "filterColumn bm c = (if isConst c then c else c\<lparr>valuesEncoded := selectRows bm (valuesEncoded c)\<rparr>)"

definition initFromFilterAllColumns :: "blockResult \<Rightarrow> bitmap \<Rightarrow> blockResult" where
  "initFromFilterAllColumns br bm =
     \<lparr>rowsLen = length (selectRows bm [0..<rowsLen br]), cs = map (filterColumn bm) (cs br)\<rparr>"




subsection \<open>Functions of the repository that are not among the sources\<close>

text \<open>
  The helpers below are called by \<^verbatim>\<open>pipe_stats.go\<close> and defined in files that are
  not among the sources (value parsing and formatting, column access, the byte
  encoding of composite keys, the hash, the number of CPUs, token quoting). They are
  parameters of the model.
\<close>

record helpers =
  tryParseUint64 :: "string \<Rightarrow> uint64 option"
  tryParseInt64 :: "string \<Rightarrow> int64 option"
  getColumnByName :: "blockResult \<Rightarrow> string \<Rightarrow> blockResultColumn"
  getBucketedValue :: "blockResult \<Rightarrow> string \<Rightarrow> byStatsField \<Rightarrow> string"
  getValuesBucketed :: "blockResultColumn \<Rightarrow> blockResult \<Rightarrow> byStatsField \<Rightarrow> string list"
  getValuesEncoded :: "blockResultColumn \<Rightarrow> blockResult \<Rightarrow> string list"
  unmarshalUint8 :: "string \<Rightarrow> 8 word"
  unmarshalUint16 :: "string \<Rightarrow> 16 word"
  unmarshalUint32 :: "string \<Rightarrow> 32 word"
  unmarshalUint64 :: "string \<Rightarrow> uint64"
  unmarshalInt64 :: "string \<Rightarrow> int64"
  MarshalBytes :: "string \<Rightarrow> string \<Rightarrow> string"
  UnmarshalBytes :: "string \<Rightarrow> string \<times> int"
  marshalUint64String :: "uint64 \<Rightarrow> string"
  marshalInt64String :: "int64 \<Rightarrow> string"
  Sum64 :: "string \<Rightarrow> uint64"
  AvailableCPUs :: nat
  quoteTokenIfNeeded :: "string \<Rightarrow> string"

subsection \<open>Stats functions, processors and groups\<close>

text \<open>
  A \<^verbatim>\<open>statsProcessor\<close> is an object: its state and its four methods. The methods
  take the state and return the new one; the update methods return the change of the
  state size as well. \<^verbatim>\<open>finalizeStats\<close> returns the bytes it appends to its buffer;
  its second argument tells whether the stop channel is closed.
\<close>

record 'a statsProcessor =
  sp_state :: 'a
  updateStatsForAllRows :: "blockResult \<Rightarrow> 'a \<Rightarrow> 'a \<times> int64"
  updateStatsForRow :: "blockResult \<Rightarrow> nat \<Rightarrow> 'a \<Rightarrow> 'a \<times> int64"
  mergeState :: "'a \<Rightarrow> 'a \<Rightarrow> 'a"
  finalizeStats :: "'a \<Rightarrow> bool \<Rightarrow> string"

text \<open>
  \<^verbatim>\<open>newStatsProcessor\<close> returns the new processor and the number of bytes it took
  from the chunked allocator.
\<close>

record 'a statsFunc =
  sf_String :: string
  newStatsProcessor :: "'a statsProcessor \<times> nat"

record ifFilter =
  iff_String :: string
  applyToBlockResult :: "blockResult \<Rightarrow> bitmap \<Rightarrow> bitmap"

record 'a pipeStatsFunc =
  psf_f :: "'a statsFunc"
  iff :: "ifFilter option"
  resultName :: string

record 'a pipeStats =
  byFields :: "byStatsField list"
  funcs :: "'a pipeStatsFunc list"

record 'a pipeStatsGroup =
  psg_funcs :: "'a pipeStatsFunc list"
  sfps :: "'a statsProcessor list"

record 'a pipeStatsGroupMap =
  u64 :: "(uint64 \<times> 'a pipeStatsGroup) list"
  negative64 :: "(uint64 \<times> 'a pipeStatsGroup) list"
  strings :: "(string \<times> 'a pipeStatsGroup) list"

record 'a pipeStatsProcessorShard =
  shard_m :: "'a pipeStatsGroupMap"
  bms :: "bitmap list"
  stateSizeBudget :: int64

datatype groupRef = RefU64 uint64 | RefNegative64 uint64 | RefString string

definition psm_reset :: "'a pipeStatsGroupMap" where
  "psm_reset = \<lparr>u64 = [], negative64 = [], strings = []\<rparr>"

definition psm_init :: "'a pipeStatsGroupMap" where
  "psm_init = \<lparr>u64 = [], negative64 = [], strings = []\<rparr>"

definition entriesCount :: "'a pipeStatsGroupMap \<Rightarrow> nat" where
  "entriesCount psm = length (u64 psm) + length (negative64 psm) + length (strings psm)"

definition lookupGroup :: "'a pipeStatsGroupMap \<Rightarrow> groupRef \<Rightarrow> 'a pipeStatsGroup option" where
  "lookupGroup psm r =
     (case r of
        RefU64 n \<Rightarrow> map_of (u64 psm) n
      | RefNegative64 n \<Rightarrow> map_of (negative64 psm) n
      | RefString k \<Rightarrow> map_of (strings psm) k)"

definition storeGroup :: "groupRef \<Rightarrow> 'a pipeStatsGroup \<Rightarrow> 'a pipeStatsGroupMap \<Rightarrow> 'a pipeStatsGroupMap" where
  "storeGroup r psg psm =
     (case r of
        RefU64 n \<Rightarrow> psm\<lparr>u64 := AList.update n psg (u64 psm)\<rparr>
      | RefNegative64 n \<Rightarrow> psm\<lparr>negative64 := AList.update n psg (negative64 psm)\<rparr>
      | RefString k \<Rightarrow> psm\<lparr>strings := AList.update k psg (strings psm)\<rparr>)"

text \<open>
  \<^verbatim>\<open>newPipeStatsGroup\<close>: one processor per function of the pipe, in the order of
  \<^verbatim>\<open>funcs\<close>; the shard's budget pays for what each processor allocates and for the
  group itself (a pointer of 8 bytes and an interface value of 16 bytes per processor).
\<close>

definition newPipeStatsGroup ::
  "'a pipeStats \<Rightarrow> 'a pipeStatsProcessorShard \<Rightarrow> 'a pipeStatsGroup \<times> 'a pipeStatsProcessorShard" where
  "newPipeStatsGroup ps shard =
     (let (sfps', budget) =
            fold (\<lambda>fn (acc, b). (acc @ [fst (newStatsProcessor (psf_f fn))],
                                  b - of_nat (snd (newStatsProcessor (psf_f fn)))))
                 (funcs ps) ([], stateSizeBudget shard);
          psg = \<lparr>psg_funcs = funcs ps, sfps = sfps'\<rparr>
      in (psg, shard\<lparr>stateSizeBudget := budget - of_nat (8 + 16 * length sfps')\<rparr>))"

definition getPipeStatsGroupUint64 ::
  "'a pipeStats \<Rightarrow> 'a pipeStatsProcessorShard \<Rightarrow> uint64 \<Rightarrow> groupRef \<times> 'a pipeStatsProcessorShard" where
  "getPipeStatsGroupUint64 ps shard n =
     (case map_of (u64 (shard_m shard)) n of
        Some psg \<Rightarrow> (RefU64 n, shard)
      | None \<Rightarrow>
          (let (psg, shard1) = newPipeStatsGroup ps shard
           in (RefU64 n,
               shard1\<lparr>shard_m := (shard_m shard1)\<lparr>u64 := u64 (shard_m shard1) @ [(n, psg)]\<rparr>,
                      stateSizeBudget := stateSizeBudget shard1 - 8\<rparr>)))"

definition getPipeStatsGroupNegativeInt64 ::
  "'a pipeStats \<Rightarrow> 'a pipeStatsProcessorShard \<Rightarrow> int64 \<Rightarrow> groupRef \<times> 'a pipeStatsProcessorShard" where
  "getPipeStatsGroupNegativeInt64 ps shard n =
     (case map_of (negative64 (shard_m shard)) n of
        Some psg \<Rightarrow> (RefNegative64 n, shard)
      | None \<Rightarrow>
          (let (psg, shard1) = newPipeStatsGroup ps shard
           in (RefNegative64 n,
               shard1\<lparr>shard_m := (shard_m shard1)\<lparr>negative64 := negative64 (shard_m shard1) @ [(n, psg)]\<rparr>,
                      stateSizeBudget := stateSizeBudget shard1 - 8\<rparr>)))"

definition getPipeStatsGroupString ::
  "'a pipeStats \<Rightarrow> 'a pipeStatsProcessorShard \<Rightarrow> string \<Rightarrow> groupRef \<times> 'a pipeStatsProcessorShard" where
  "getPipeStatsGroupString ps shard key =
     (case map_of (strings (shard_m shard)) key of
        Some psg \<Rightarrow> (RefString key, shard)
      | None \<Rightarrow>
          (let (psg, shard1) = newPipeStatsGroup ps shard
           in (RefString key,
               shard1\<lparr>shard_m := (shard_m shard1)\<lparr>strings := strings (shard_m shard1) @ [(key, psg)]\<rparr>,
                      stateSizeBudget := stateSizeBudget shard1 - of_nat (length key + 16)\<rparr>)))"

definition getPipeStatsGroupGeneric ::
  "helpers \<Rightarrow> 'a pipeStats \<Rightarrow> 'a pipeStatsProcessorShard \<Rightarrow> string \<Rightarrow> groupRef \<times> 'a pipeStatsProcessorShard" where
  "getPipeStatsGroupGeneric H ps shard key =
     (case tryParseUint64 H key of
        Some n \<Rightarrow> getPipeStatsGroupUint64 ps shard n
      | None \<Rightarrow>
          (if length key > 0 \<and> key ! 0 = CHR ''-'' then
             (case tryParseInt64 H key of
                Some n \<Rightarrow> getPipeStatsGroupNegativeInt64 ps shard n
              | None \<Rightarrow> getPipeStatsGroupString ps shard key)
           else getPipeStatsGroupString ps shard key))"

definition getPipeStatsGroupInt64 ::
  "'a pipeStats \<Rightarrow> 'a pipeStatsProcessorShard \<Rightarrow> int64 \<Rightarrow> groupRef \<times> 'a pipeStatsProcessorShard" where
  "getPipeStatsGroupInt64 ps shard n =
     (if 0 \<le>s n then getPipeStatsGroupUint64 ps shard n
      else getPipeStatsGroupNegativeInt64 ps shard n)"

subsection \<open>Updating a group\<close>

text \<open>
  \<^verbatim>\<open>pipeStatsGroup.updateStatsForAllRows\<close>: the loop over \<^verbatim>\<open>psg.sfps\<close>, the
  index \<open>i\<close> running from the first processor. A function without \<^verbatim>\<open>iff\<close> gets
  the block itself, a function with \<^verbatim>\<open>iff\<close> gets the projection of the block
  through its own bitmap.
\<close>

fun updateStatsForAllRows_loop ::
  "'a pipeStatsFunc list \<Rightarrow> bitmap list \<Rightarrow> blockResult \<Rightarrow> nat \<Rightarrow> 'a statsProcessor list
     \<Rightarrow> error + ('a statsProcessor list \<times> int64)" where
  "updateStatsForAllRows_loop fs bs br i [] = Inr ([], 0)"
| "updateStatsForAllRows_loop fs bs br i (sfp # rest) =
     bindE (nthE fs i) (\<lambda>fn.
       bindE (case iff fn of
                None \<Rightarrow> Inr (updateStatsForAllRows sfp br (sp_state sfp))
              | Some flt \<Rightarrow>
                  bindE (nthE bs i) (\<lambda>bm.
                    Inr (updateStatsForAllRows sfp (initFromFilterAllColumns br bm) (sp_state sfp))))
         (\<lambda>(s', d).
            bindE (updateStatsForAllRows_loop fs bs br (Suc i) rest) (\<lambda>(rest', n).
              Inr (sfp\<lparr>sp_state := s'\<rparr> # rest', d + n))))"

definition psg_updateStatsForAllRows ::
  "'a pipeStatsGroup \<Rightarrow> bitmap list \<Rightarrow> blockResult \<Rightarrow> error + ('a pipeStatsGroup \<times> int64)" where
  "psg_updateStatsForAllRows psg bs br =
     bindE (updateStatsForAllRows_loop (psg_funcs psg) bs br 0 (sfps psg))
       (\<lambda>(sfps', n). Inr (psg\<lparr>sfps := sfps'\<rparr>, n))"

text \<open>
  \<^verbatim>\<open>pipeStatsGroup.updateStatsForRow\<close>: a processor is updated for the row when its
  function has no \<^verbatim>\<open>iff\<close> or the row's bit is set in the function's bitmap.
\<close>

fun updateStatsForRow_loop ::
  "'a pipeStatsFunc list \<Rightarrow> bitmap list \<Rightarrow> blockResult \<Rightarrow> nat \<Rightarrow> nat \<Rightarrow> 'a statsProcessor list
     \<Rightarrow> error + ('a statsProcessor list \<times> int64)" where
  "updateStatsForRow_loop fs bs br rowIdx i [] = Inr ([], 0)"
| "updateStatsForRow_loop fs bs br rowIdx i (sfp # rest) =
     bindE (nthE fs i) (\<lambda>fn.
       bindE (case iff fn of
                None \<Rightarrow> Inr True
              | Some flt \<Rightarrow> bindE (nthE bs i) (\<lambda>bm. Inr (isSetBit bm rowIdx)))
         (\<lambda>upd.
            let (s', d) = (if upd then updateStatsForRow sfp br rowIdx (sp_state sfp)
                           else (sp_state sfp, 0))
            in bindE (updateStatsForRow_loop fs bs br rowIdx (Suc i) rest) (\<lambda>(rest', n).
                 Inr (sfp\<lparr>sp_state := s'\<rparr> # rest', d + n))))"

definition psg_updateStatsForRow ::
  "'a pipeStatsGroup \<Rightarrow> bitmap list \<Rightarrow> blockResult \<Rightarrow> nat \<Rightarrow> error + ('a pipeStatsGroup \<times> int64)" where
  "psg_updateStatsForRow psg bs br rowIdx =
     bindE (updateStatsForRow_loop (psg_funcs psg) bs br rowIdx 0 (sfps psg))
       (\<lambda>(sfps', n). Inr (psg\<lparr>sfps := sfps'\<rparr>, n))"

text \<open>
  The two statements of the write path that update a group through its pointer and charge
  the shard's budget:
  \<^verbatim>\<open>shard.stateSizeBudget -= psg.updateStatsForAllRows(shard.bms, br, &shard.brTmp)\<close> and
  \<^verbatim>\<open>shard.stateSizeBudget -= psg.updateStatsForRow(shard.bms, br, i)\<close>.
  A nil pointer panics.
\<close>

definition shard_updateAllRows ::
  "'a pipeStatsProcessorShard \<Rightarrow> groupRef option \<Rightarrow> blockResult \<Rightarrow> error + 'a pipeStatsProcessorShard" where
  "shard_updateAllRows shard r br =
     (case r of
        None \<Rightarrow> Inl (Panic ''nil pointer dereference'')
      | Some ref \<Rightarrow>
          (case lookupGroup (shard_m shard) ref of
             None \<Rightarrow> Inl (Panic ''nil pointer dereference'')
           | Some psg \<Rightarrow>
               bindE (psg_updateStatsForAllRows psg (bms shard) br) (\<lambda>(psg', n).
                 Inr (shard\<lparr>shard_m := storeGroup ref psg' (shard_m shard),
                            stateSizeBudget := stateSizeBudget shard - n\<rparr>))))"

definition shard_updateRow ::
  "'a pipeStatsProcessorShard \<Rightarrow> groupRef option \<Rightarrow> blockResult \<Rightarrow> nat \<Rightarrow> error + 'a pipeStatsProcessorShard" where
  "shard_updateRow shard r br i =
     (case r of
        None \<Rightarrow> Inl (Panic ''nil pointer dereference'')
      | Some ref \<Rightarrow>
          (case lookupGroup (shard_m shard) ref of
             None \<Rightarrow> Inl (Panic ''nil pointer dereference'')
           | Some psg \<Rightarrow>
               bindE (psg_updateStatsForRow psg (bms shard) br i) (\<lambda>(psg', n).
                 Inr (shard\<lparr>shard_m := storeGroup ref psg' (shard_m shard),
                            stateSizeBudget := stateSizeBudget shard - n\<rparr>))))"

subsection \<open>The write path of a shard\<close>

text \<open>
  \<^verbatim>\<open>applyPerFunctionFilters\<close>: for every function with an \<^verbatim>\<open>iff\<close>, its bitmap is
  initialised to the rows of the block, all bits are set, and the filter is applied.
  The bitmap slot of a function without \<^verbatim>\<open>iff\<close> is left as it is.
\<close>

fun applyPerFunctionFilters_loop ::
  "blockResult \<Rightarrow> nat \<Rightarrow> 'a pipeStatsFunc list \<Rightarrow> bitmap list \<Rightarrow> error + bitmap list" where
  "applyPerFunctionFilters_loop br i [] bs = Inr bs"
| "applyPerFunctionFilters_loop br i (fn # rest) bs =
     (case iff fn of
        None \<Rightarrow> applyPerFunctionFilters_loop br (Suc i) rest bs
      | Some flt \<Rightarrow>
          (if i < length bs
           then applyPerFunctionFilters_loop br (Suc i) rest
                  (bs[i := applyToBlockResult flt br (bm_init_setBits (rowsLen br))])
           else Inl (Panic ''index out of range'')))"

definition applyPerFunctionFilters ::
  "'a pipeStats \<Rightarrow> 'a pipeStatsProcessorShard \<Rightarrow> blockResult \<Rightarrow> error + 'a pipeStatsProcessorShard" where
  "applyPerFunctionFilters ps shard br =
     bindE (applyPerFunctionFilters_loop br 0 (funcs ps) (bms shard)) (\<lambda>bs. Inr (shard\<lparr>bms := bs\<rparr>))"

fun areConstValues :: "string list \<Rightarrow> bool" where
  "areConstValues [] = False"
| "areConstValues (v # vs) = list_all (\<lambda>w. v = w) vs"

text \<open>
  The loops of \<^verbatim>\<open>updateStatsSingleColumn\<close> over an integer-typed column: the group
  is looked up again only where the encoded value differs from the one of the previous
  row. \<open>decode\<close> is the unmarshalling of the column type followed by the lookup.
\<close>

fun singleColumn_loop ::
  "(string \<Rightarrow> 'a pipeStatsProcessorShard \<Rightarrow> groupRef \<times> 'a pipeStatsProcessorShard)
     \<Rightarrow> blockResult \<Rightarrow> string list \<Rightarrow> nat \<Rightarrow> string list \<Rightarrow> groupRef option
     \<Rightarrow> 'a pipeStatsProcessorShard \<Rightarrow> error + 'a pipeStatsProcessorShard" where
  "singleColumn_loop getGroup br vals i [] psg shard = Inr shard"
| "singleColumn_loop getGroup br vals i (v # rest) psg shard =
     (let (psg1, shard1) =
            (if i \<le> 0 \<or> vals ! (i - 1) \<noteq> v
             then (let (r, sh) = getGroup v shard in (Some r, sh))
             else (psg, shard))
      in bindE (shard_updateRow shard1 psg1 br i)
           (\<lambda>shard2. singleColumn_loop getGroup br vals (Suc i) rest psg1 shard2))"

text \<open>
  The generic loop of \<^verbatim>\<open>updateStatsSingleColumn\<close> and the loop of the slowest path
  of \<^verbatim>\<open>writeBlock\<close> run over the row indices below \<^verbatim>\<open>br.rowsLen\<close> and index the
  value slices; an index outside a slice panics. \<open>rowsFrom i n\<close> are the indices
  \<open>i, ..., i + n - 1\<close>.
\<close>

fun genericColumn_loop ::
  "helpers \<Rightarrow> 'a pipeStats \<Rightarrow> blockResult \<Rightarrow> string list \<Rightarrow> nat \<Rightarrow> nat \<Rightarrow> groupRef option
     \<Rightarrow> 'a pipeStatsProcessorShard \<Rightarrow> error + 'a pipeStatsProcessorShard" where
  "genericColumn_loop H ps br vals i 0 psg shard = Inr shard"
| "genericColumn_loop H ps br vals i (Suc k) psg shard =
     bindE (if i \<le> 0 then Inr True
            else bindE (nthE vals (i - 1)) (\<lambda>p. bindE (nthE vals i) (\<lambda>v. Inr (p \<noteq> v))))
       (\<lambda>changed.
          bindE (if changed
                 then bindE (nthE vals i) (\<lambda>v.
                        let (r, sh) = getPipeStatsGroupGeneric H ps shard v in Inr (Some r, sh))
                 else Inr (psg, shard))
            (\<lambda>(psg1, shard1).
               bindE (shard_updateRow shard1 psg1 br i)
                 (\<lambda>shard2. genericColumn_loop H ps br vals (Suc i) k psg1 shard2)))"

definition updateStatsSingleColumn ::
  "helpers \<Rightarrow> 'a pipeStats \<Rightarrow> 'a pipeStatsProcessorShard \<Rightarrow> blockResult \<Rightarrow> byStatsField
     \<Rightarrow> error + 'a pipeStatsProcessorShard" where
  "updateStatsSingleColumn H ps shard br bf =
     (let c = getColumnByName H br (name bf) in
      if isConst c then
        bindE (nthE (valuesEncoded c) 0) (\<lambda>v0.
          let v = getBucketedValue H br v0 bf;
              (r, shard1) = getPipeStatsGroupGeneric H ps shard v
          in shard_updateAllRows shard1 (Some r) br)
      else if \<not> hasBucketConfig bf \<and> valueType c = valueTypeUint8 then
        (let vals = getValuesEncoded H c br
         in singleColumn_loop (\<lambda>v sh. getPipeStatsGroupUint64 ps sh (ucast (unmarshalUint8 H v)))
              br vals 0 vals None shard)
      else if \<not> hasBucketConfig bf \<and> valueType c = valueTypeUint16 then
        (let vals = getValuesEncoded H c br
         in singleColumn_loop (\<lambda>v sh. getPipeStatsGroupUint64 ps sh (ucast (unmarshalUint16 H v)))
              br vals 0 vals None shard)
      else if \<not> hasBucketConfig bf \<and> valueType c = valueTypeUint32 then
        (let vals = getValuesEncoded H c br
         in singleColumn_loop (\<lambda>v sh. getPipeStatsGroupUint64 ps sh (ucast (unmarshalUint32 H v)))
              br vals 0 vals None shard)
      else if \<not> hasBucketConfig bf \<and> valueType c = valueTypeUint64 then
        (let vals = getValuesEncoded H c br
         in singleColumn_loop (\<lambda>v sh. getPipeStatsGroupUint64 ps sh (unmarshalUint64 H v))
              br vals 0 vals None shard)
      else if \<not> hasBucketConfig bf \<and> valueType c = valueTypeInt64 then
        (let vals = getValuesEncoded H c br
         in singleColumn_loop (\<lambda>v sh. getPipeStatsGroupInt64 ps sh (unmarshalInt64 H v))
              br vals 0 vals None shard)
      else
        (let vals = getValuesBucketed H c br bf
         in genericColumn_loop H ps br vals 0 (rowsLen br) None shard))"

text \<open>
  The slowest path of \<^verbatim>\<open>pipeStatsProcessorShard.writeBlock\<close>: \<open>sameValue\<close> is the
  inner loop that compares the row with the previous one (it stops at the first column
  that differs), \<open>marshalKey\<close> the inner loop that builds the composite key of a row.
\<close>

fun sameValue :: "string list list \<Rightarrow> nat \<Rightarrow> error + bool" where
  "sameValue [] i = Inr (i > 0)"
| "sameValue (vals # rest) i =
     (if i \<le> 0 then Inr False
      else bindE (nthE vals (i - 1)) (\<lambda>p. bindE (nthE vals i) (\<lambda>v.
             if p \<noteq> v then Inr False else sameValue rest i)))"

fun marshalKey :: "helpers \<Rightarrow> string list list \<Rightarrow> nat \<Rightarrow> string \<Rightarrow> error + string" where
  "marshalKey H [] i keyBuf = Inr keyBuf"
| "marshalKey H (vals # rest) i keyBuf =
     bindE (nthE vals i) (\<lambda>v. marshalKey H rest i (MarshalBytes H keyBuf v))"

fun multiColumn_loop ::
  "helpers \<Rightarrow> 'a pipeStats \<Rightarrow> blockResult \<Rightarrow> string list list \<Rightarrow> nat \<Rightarrow> nat \<Rightarrow> groupRef option
     \<Rightarrow> 'a pipeStatsProcessorShard \<Rightarrow> error + 'a pipeStatsProcessorShard" where
  "multiColumn_loop H ps br columnValues i 0 psg shard = Inr shard"
| "multiColumn_loop H ps br columnValues i (Suc k) psg shard =
     bindE (sameValue columnValues i) (\<lambda>same.
       bindE (if \<not> same
              then bindE (marshalKey H columnValues i []) (\<lambda>keyBuf.
                     let (r, sh) = getPipeStatsGroupString ps shard keyBuf in Inr (Some r, sh))
              else Inr (psg, shard))
         (\<lambda>(psg1, shard1).
            bindE (shard_updateRow shard1 psg1 br i)
              (\<lambda>shard2. multiColumn_loop H ps br columnValues (Suc i) k psg1 shard2)))"

definition shard_writeBlock ::
  "helpers \<Rightarrow> 'a pipeStats \<Rightarrow> 'a pipeStatsProcessorShard \<Rightarrow> blockResult
     \<Rightarrow> error + 'a pipeStatsProcessorShard" where
  "shard_writeBlock H ps shard0 br =
     bindE (applyPerFunctionFilters ps shard0 br) (\<lambda>shard.
       if length (byFields ps) = 0 then
         (let (r, shard1) = getPipeStatsGroupString ps shard []
          in shard_updateAllRows shard1 (Some r) br)
       else if length (byFields ps) = 1 then
         updateStatsSingleColumn H ps shard br (byFields ps ! 0)
       else
         (let columnValues =
                map (\<lambda>bf. getValuesBucketed H (getColumnByName H br (name bf)) br bf) (byFields ps)
          in if list_all areConstValues columnValues then
               (let keyBuf = fold (\<lambda>vals buf. MarshalBytes H buf (vals ! 0)) columnValues [];
                    (r, shard1) = getPipeStatsGroupString ps shard keyBuf
                in shard_updateAllRows shard1 (Some r) br)
             else multiColumn_loop H ps br columnValues 0 (rowsLen br) None shard))"

subsection \<open>The processor and its memory budget\<close>

text \<open>
  A block handed to the next pipe: the worker that wrote it, the result columns (name
  and values) and the number of rows given to \<^verbatim>\<open>setResultColumns\<close>.
\<close>

record resultColumn =
  rc_name :: string
  rc_values :: "string list"

record writtenBlock =
  wb_workerID :: nat
  wb_rcs :: "resultColumn list"
  wb_rowsLen :: nat

text \<open>
  The stop channel. The channel is closed by its owner at a moment the processor does not
  choose, and stays closed. \<^verbatim>\<open>needStop\<close> polls it. The model numbers the polls of
  a processor: the channel \<open>Some c\<close> reads open at the polls below \<open>c\<close> and closed
  from the poll \<open>c\<close> on; the channel \<open>None\<close> is never closed. Each poll advances the
  count of polls by one, so the channel can close between any two polls.
\<close>

type_synonym stopChannel = "nat option"

definition needStop :: "stopChannel \<Rightarrow> nat \<Rightarrow> bool" where
  "needStop ch t = (case ch of None \<Rightarrow> False | Some c \<Rightarrow> c \<le> t)"

text \<open>
  The processor: the pipe, the shards, the configured budget \<^verbatim>\<open>maxStateSize\<close>, the
  atomic counter \<^verbatim>\<open>stateSizeBudget\<close>, and the three collaborators as the traces the
  processor leaves on them: \<open>stopCh\<close> is the stop channel and \<open>polls\<close> the number of
  polls made so far, \<open>cancelCalls\<close> counts the calls of \<^verbatim>\<open>cancel()\<close>, \<open>ppNext\<close>
  lists the blocks written to the next pipe, oldest first.
\<close>

record 'a pipeStatsProcessor =
  psp_ps :: "'a pipeStats"
  stopCh :: stopChannel
  polls :: nat
  cancelCalls :: nat
  ppNext :: "writtenBlock list"
  shards :: "'a pipeStatsProcessorShard list"
  maxStateSize :: int64
  psp_stateSizeBudget :: int64

definition stateSizeBudgetChunk :: int64 where
  "stateSizeBudgetChunk = 2 ^ 20"

definition shard_init :: "'a pipeStats \<Rightarrow> 'a pipeStatsProcessorShard \<Rightarrow> 'a pipeStatsProcessorShard" where
  "shard_init ps shard = shard\<lparr>shard_m := psm_init, bms := replicate (length (funcs ps)) []\<rparr>"

text \<open>
  \<^verbatim>\<open>newPipeProcessor\<close>; \<open>allowed\<close> is 30 percent of \<^verbatim>\<open>memory.Allowed()\<close>, computed
  in floating point by the source and taken as given here. The local budget of a fresh
  shard is the zero value of the struct.
\<close>

definition newPipeProcessor ::
  "'a pipeStats \<Rightarrow> nat \<Rightarrow> stopChannel \<Rightarrow> int64 \<Rightarrow> 'a pipeStatsProcessor" where
  "newPipeProcessor ps workersCount stop allowed =
     \<lparr>psp_ps = ps, stopCh = stop, polls = 0, cancelCalls = 0, ppNext = [],
      shards = replicate workersCount
                 (shard_init ps \<lparr>shard_m = psm_reset, bms = [], stateSizeBudget = 0\<rparr>),
      maxStateSize = allowed, psp_stateSizeBudget = allowed\<rparr>"

text \<open>
  The loop at the head of \<^verbatim>\<open>pipeStatsProcessor.writeBlock\<close>. It returns the processor
  and whether the block is to be processed (\<open>False\<close>: the method returned inside the
  loop).
\<close>

function stealBudget_loop :: "'a pipeStatsProcessor \<Rightarrow> nat \<Rightarrow> 'a pipeStatsProcessor \<times> bool" where
  "stealBudget_loop psp workerID =
     (if workerID < length (shards psp) \<and> stateSizeBudget (shards psp ! workerID) <s 0 then
        (let remaining = psp_stateSizeBudget psp - stateSizeBudgetChunk;
             psp1 = psp\<lparr>psp_stateSizeBudget := remaining\<rparr>
         in if remaining <s 0 then
              (if 0 \<le>s remaining + stateSizeBudgetChunk
               then (psp1\<lparr>cancelCalls := Suc (cancelCalls psp1)\<rparr>, False)
               else (psp1, False))
            else
              (let shard = shards psp1 ! workerID
               in stealBudget_loop
                    (psp1\<lparr>shards := (shards psp1)
                            [workerID := shard\<lparr>stateSizeBudget := stateSizeBudget shard + stateSizeBudgetChunk\<rparr>]\<rparr>)
                    workerID))
      else (psp, True))"
  by pat_completeness auto

lemma sint_add_chunk:
  fixes x :: int64
  assumes "x <s 0"
  shows "sint (x + stateSizeBudgetChunk) = sint x + 2 ^ 20"
proof -
  have neg: "sint x < 0"
    using assms by (simp add: word_sless_alt)
  have low: "- (2 ^ 63) \<le> sint x"
    using sint_ge [of x] by simp
  have "sint (x + 2 ^ 20) = signed_take_bit 63 (sint x + sint (2 ^ 20 :: int64))"
    by (simp add: sint_word_ariths)
  also have "sint (2 ^ 20 :: int64) = 2 ^ 20"
    by simp
  also have "signed_take_bit 63 (sint x + 2 ^ 20) = sint x + 2 ^ 20"
    using neg low by (intro signed_take_bit_int_eq_self) auto
  finally show ?thesis
    by (simp add: stateSizeBudgetChunk_def)
qed

termination stealBudget_loop
proof (relation "measure (\<lambda>(psp, workerID). nat (- sint (stateSizeBudget (shards psp ! workerID))))")
  show "wf (measure (\<lambda>(psp :: 'a pipeStatsProcessor, workerID).
              nat (- sint (stateSizeBudget (shards psp ! workerID)))))"
    by simp
next
  fix psp :: "'a pipeStatsProcessor" and workerID remaining psp1 shard
  assume a: "workerID < length (shards psp) \<and> stateSizeBudget (shards psp ! workerID) <s 0"
    and r: "remaining = psp_stateSizeBudget psp - stateSizeBudgetChunk"
    and p: "psp1 = psp\<lparr>psp_stateSizeBudget := remaining\<rparr>"
    and s: "shard = shards psp1 ! workerID"
  have neg: "sint (stateSizeBudget (shards psp ! workerID)) < 0"
    using a by (simp add: word_sless_alt)
  show "((psp1\<lparr>shards := (shards psp1)
                  [workerID := shard\<lparr>stateSizeBudget := stateSizeBudget shard + stateSizeBudgetChunk\<rparr>]\<rparr>,
          workerID), psp, workerID)
        \<in> measure (\<lambda>(psp, workerID). nat (- sint (stateSizeBudget (shards psp ! workerID))))"
    using a neg sint_add_chunk [of "stateSizeBudget (shards psp ! workerID)"]
    by (simp add: p s)
qed

text \<open>
  \<^verbatim>\<open>pipeStatsProcessor.writeBlock\<close>. Indexing \<^verbatim>\<open>psp.shards\<close> with a worker that
  has no shard panics.
\<close>

definition psp_writeBlock ::
  "helpers \<Rightarrow> 'a pipeStatsProcessor \<Rightarrow> nat \<Rightarrow> blockResult \<Rightarrow> error + 'a pipeStatsProcessor" where
  "psp_writeBlock H psp workerID br =
     (if rowsLen br = 0 then Inr psp
      else if \<not> workerID < length (shards psp) then Inl (Panic ''index out of range'')
      else
        (let (psp1, proceed) = stealBudget_loop psp workerID
         in if \<not> proceed then Inr psp1
            else bindE (shard_writeBlock H (psp_ps psp1) (shards psp1 ! workerID) br)
                   (\<lambda>shard'. Inr (psp1\<lparr>shards := (shards psp1)[workerID := shard']\<rparr>))))"

subsection \<open>Merging group maps\<close>

text \<open>
  \<^verbatim>\<open>pipeStatsGroup.mergeState\<close>: the processors are merged position by position.
\<close>

fun psg_mergeState_loop ::
  "'a statsProcessor list \<Rightarrow> nat \<Rightarrow> 'a statsProcessor list \<Rightarrow> error + 'a statsProcessor list" where
  "psg_mergeState_loop srcs i [] = Inr []"
| "psg_mergeState_loop srcs i (sfp # rest) =
     bindE (nthE srcs i) (\<lambda>src.
       bindE (psg_mergeState_loop srcs (Suc i) rest) (\<lambda>rest'.
         Inr (sfp\<lparr>sp_state := mergeState sfp (sp_state sfp) (sp_state src)\<rparr> # rest')))"

definition psg_mergeState :: "'a pipeStatsGroup \<Rightarrow> 'a pipeStatsGroup \<Rightarrow> error + 'a pipeStatsGroup" where
  "psg_mergeState psg src =
     bindE (psg_mergeState_loop (sfps src) 0 (sfps psg)) (\<lambda>sfps'. Inr (psg\<lparr>sfps := sfps'\<rparr>))"

text \<open>
  One loop of \<^verbatim>\<open>pipeStatsGroupMap.mergeState\<close> over a sub-map of the source. Every
  iteration polls the stop channel first. The result is the destination, whether the
  loop returned because the channel is closed, and the number of polls after the loop.
\<close>

fun mergeEntries ::
  "stopChannel \<Rightarrow> nat \<Rightarrow> ('k \<times> 'a pipeStatsGroup) list \<Rightarrow> ('k \<times> 'a pipeStatsGroup) list
     \<Rightarrow> error + (('k \<times> 'a pipeStatsGroup) list \<times> bool \<times> nat)" where
  "mergeEntries ch t [] dst = Inr (dst, False, t)"
| "mergeEntries ch t ((k, psgSrc) # rest) dst =
     (if needStop ch t then Inr (dst, True, Suc t)
      else case map_of dst k of
             None \<Rightarrow> mergeEntries ch (Suc t) rest (dst @ [(k, psgSrc)])
           | Some psgDst \<Rightarrow>
               bindE (psg_mergeState psgDst psgSrc) (\<lambda>psg'.
                 mergeEntries ch (Suc t) rest (AList.update k psg' dst)))"

definition psm_mergeState ::
  "stopChannel \<Rightarrow> nat \<Rightarrow> 'a pipeStatsGroupMap \<Rightarrow> 'a pipeStatsGroupMap
     \<Rightarrow> error + ('a pipeStatsGroupMap \<times> nat)" where
  "psm_mergeState ch t psm src =
     bindE (mergeEntries ch t (u64 src) (u64 psm)) (\<lambda>(u, stopped, t1).
       if stopped then Inr (psm\<lparr>u64 := u\<rparr>, t1)
       else bindE (mergeEntries ch t1 (negative64 src) (negative64 psm)) (\<lambda>(n, stopped, t2).
         if stopped then Inr (psm\<lparr>u64 := u, negative64 := n\<rparr>, t2)
         else bindE (mergeEntries ch t2 (strings src) (strings psm)) (\<lambda>(s, stopped, t3).
           Inr (psm\<lparr>u64 := u, negative64 := n, strings := s\<rparr>, t3))))"

subsection \<open>The merge across shards\<close>

text \<open>
  The eight bytes of a \<^verbatim>\<open>uint64\<close> as \<^verbatim>\<open>unsafe.Slice\<close> reads them from memory
  (least significant byte first).
\<close>

definition uint64Bytes :: "uint64 \<Rightarrow> string" where
  "uint64Bytes n = map (\<lambda>i. char_of (unat (drop_bit (8 * i) n))) [0..<8]"

text \<open>
  One loop of the scatter step over a sub-map of a shard: every group goes to the map of
  the CPU its key hashes to. \<open>None\<close>: the goroutine returned because the stop channel
  is closed. The remainder by zero CPUs panics.
\<close>

fun scatterEntries ::
  "stopChannel \<Rightarrow> nat \<Rightarrow> ('k \<Rightarrow> uint64) \<Rightarrow> ('k \<Rightarrow> 'g \<Rightarrow> 'm \<Rightarrow> 'm) \<Rightarrow> ('k \<times> 'g) list \<Rightarrow> 'm list
     \<Rightarrow> error + ('m list option \<times> nat)" where
  "scatterEntries ch t hashOf put [] perCPU = Inr (Some perCPU, t)"
| "scatterEntries ch t hashOf put ((k, psg) # rest) perCPU =
     (if needStop ch t then Inr (None, Suc t)
      else if length perCPU = 0 then Inl (Panic ''integer divide by zero'')
      else (let shardIdx = unat (hashOf k) mod length perCPU
            in scatterEntries ch (Suc t) hashOf put rest
                 (perCPU[shardIdx := put k psg (perCPU ! shardIdx)])))"

definition scatterShard ::
  "helpers \<Rightarrow> stopChannel \<Rightarrow> nat \<Rightarrow> nat \<Rightarrow> 'a pipeStatsProcessorShard
     \<Rightarrow> error + ('a pipeStatsGroupMap list option \<times> 'a pipeStatsProcessorShard \<times> nat)" where
  "scatterShard H ch t cpusCount shard =
     (let psm = shard_m shard in
      bindE (scatterEntries ch t (\<lambda>n. Sum64 H (uint64Bytes n))
               (\<lambda>n psg m. m\<lparr>u64 := AList.update n psg (u64 m)\<rparr>)
               (u64 psm) (replicate cpusCount psm_init)) (\<lambda>(r1, t1).
        case r1 of None \<Rightarrow> Inr (None, shard, t1) | Some perCPU1 \<Rightarrow>
          bindE (scatterEntries ch t1 (\<lambda>n. Sum64 H (uint64Bytes n))
                   (\<lambda>n psg m. m\<lparr>negative64 := AList.update n psg (negative64 m)\<rparr>)
                   (negative64 psm) perCPU1) (\<lambda>(r2, t2).
            case r2 of None \<Rightarrow> Inr (None, shard, t2) | Some perCPU2 \<Rightarrow>
              bindE (scatterEntries ch t2 (Sum64 H)
                       (\<lambda>k psg m. m\<lparr>strings := AList.update k psg (strings m)\<rparr>)
                       (strings psm) perCPU2) (\<lambda>(r3, t3).
                case r3 of None \<Rightarrow> Inr (None, shard, t3)
                | Some perCPU \<Rightarrow> Inr (Some perCPU, shard\<lparr>shard_m := psm_reset\<rparr>, t3)))))"

fun scatterShards ::
  "helpers \<Rightarrow> stopChannel \<Rightarrow> nat \<Rightarrow> nat \<Rightarrow> 'a pipeStatsProcessorShard list
     \<Rightarrow> error + ('a pipeStatsGroupMap list option list \<times> 'a pipeStatsProcessorShard list \<times> nat)" where
  "scatterShards H ch t cpusCount [] = Inr ([], [], t)"
| "scatterShards H ch t cpusCount (shard # rest) =
     bindE (scatterShard H ch t cpusCount shard) (\<lambda>(perCPU, shard', t1).
       bindE (scatterShards H ch t1 cpusCount rest) (\<lambda>(maps, shards', t2).
         Inr (perCPU # maps, shard' # shards', t2)))"

text \<open>
  The fan-in for one CPU: the maps of the other shards for that CPU are merged into the
  map of the first shard, in the order of the shards.
\<close>

fun mergeCPU ::
  "stopChannel \<Rightarrow> nat \<Rightarrow> nat \<Rightarrow> 'a pipeStatsGroupMap list list \<Rightarrow> 'a pipeStatsGroupMap
     \<Rightarrow> error + ('a pipeStatsGroupMap \<times> nat)" where
  "mergeCPU ch t cpuIdx [] psm = Inr (psm, t)"
| "mergeCPU ch t cpuIdx (perCPU # rest) psm =
     bindE (nthE perCPU cpuIdx) (\<lambda>src.
       bindE (psm_mergeState ch t psm src) (\<lambda>(psm', t1). mergeCPU ch t1 cpuIdx rest psm'))"

fun mergeCPUs ::
  "stopChannel \<Rightarrow> nat \<Rightarrow> 'a pipeStatsGroupMap list list \<Rightarrow> nat list
     \<Rightarrow> error + ('a pipeStatsGroupMap list \<times> nat)" where
  "mergeCPUs ch t perShardMaps [] = Inr ([], t)"
| "mergeCPUs ch t perShardMaps (cpuIdx # rest) =
     bindE (nthE perShardMaps 0) (\<lambda>first.
       bindE (nthE first cpuIdx) (\<lambda>psm.
         bindE (mergeCPU ch t cpuIdx (tl perShardMaps) psm) (\<lambda>(psm', t1).
           bindE (mergeCPUs ch t1 perShardMaps rest) (\<lambda>(psms, t2). Inr (psm' # psms, t2)))))"

subsection \<open>The budget error\<close>

definition digitChar :: "nat \<Rightarrow> char" where
  "digitChar d = ''0123456789'' ! d"

fun showNat :: "nat \<Rightarrow> string" where
  "showNat n = (if n < 10 then [digitChar n] else showNat (n div 10) @ [digitChar (n mod 10)])"

declare showNat.simps [simp del]

text \<open>The verb \<^verbatim>\<open>%d\<close> of \<^verbatim>\<open>fmt\<close>: the decimal form, with a minus sign below zero.\<close>

definition formatInt :: "int \<Rightarrow> string" where
  "formatInt i = (if i < 0 then CHR ''-'' # showNat (nat (- i)) else showNat (nat i))"

fun join :: "string \<Rightarrow> string list \<Rightarrow> string" where
  "join sep [] = []"
| "join sep [x] = x"
| "join sep (x # y # ys) = x @ sep @ join sep (y # ys)"

definition byStatsField_String :: "helpers \<Rightarrow> byStatsField \<Rightarrow> string" where
  "byStatsField_String H bf =
     (let s = quoteTokenIfNeeded H (name bf) in
      if bucketSizeStr bf \<noteq> [] then
        (let s1 = s @ '':'' @ bucketSizeStr bf in
         if bucketOffsetStr bf \<noteq> [] then s1 @ '' offset '' @ bucketOffsetStr bf else s1)
      else s)"

definition pipeStatsFunc_line :: "helpers \<Rightarrow> 'a pipeStatsFunc \<Rightarrow> string" where
  "pipeStatsFunc_line H fn =
     (let line = sf_String (psf_f fn);
          line1 = (case iff fn of None \<Rightarrow> line | Some flt \<Rightarrow> line @ '' '' @ iff_String flt)
      in line1 @ '' as '' @ quoteTokenIfNeeded H (resultName fn))"

definition pipeStats_String :: "helpers \<Rightarrow> 'a pipeStats \<Rightarrow> error + string" where
  "pipeStats_String H ps =
     (let s = ''stats '';
          s1 = (if length (byFields ps) > 0
                then s @ ''by ('' @ join '', '' (map (byStatsField_String H) (byFields ps)) @ '') ''
                else s)
      in if length (funcs ps) = 0
         then Inl (Panic ''BUG: pipeStats must contain at least a single statsFunc'')
         else Inr (s1 @ join '', '' (map (pipeStatsFunc_line H) (funcs ps))))"

text \<open>
  The value of \<^verbatim>\<open>fmt.Errorf("cannot calculate [%s], since it requires more than %dMB of memory",
  psp.ps.String(), psp.maxStateSize/(1<<20))\<close>. Go's division truncates towards zero.
\<close>

definition budgetError :: "helpers \<Rightarrow> 'a pipeStatsProcessor \<Rightarrow> error" where
  "budgetError H psp =
     (case pipeStats_String H (psp_ps psp) of
        Inl e \<Rightarrow> e
      | Inr s \<Rightarrow>
          Err (''cannot calculate ['' @ s @ ''], since it requires more than ''
               @ formatInt (sint (maxStateSize psp) sdiv 2 ^ 20) @ ''MB of memory''))"

text \<open>
  \<^verbatim>\<open>mergeShardsParallel\<close>. The result is the error, or the maps to write and the
  processor with the source maps cleared and the polls counted; the maps are empty when
  a poll after the scatter or after the fan-in reads the stop channel closed (the source
  returns \<^verbatim>\<open>nil, nil\<close>).
\<close>

definition mergeShardsGeneral ::
  "helpers \<Rightarrow> 'a pipeStatsProcessor \<Rightarrow> error + ('a pipeStatsGroupMap list \<times> 'a pipeStatsProcessor)" where
  "mergeShardsGeneral H psp =
     (let cpusCount = AvailableCPUs H; ch = stopCh psp in
      bindE (scatterShards H ch (polls psp) cpusCount (shards psp)) (\<lambda>(scattered, shards', t1).
        let psp1 = psp\<lparr>shards := shards', polls := Suc t1\<rparr> in
        if needStop ch t1 then Inr ([], psp1)
        else if psp_stateSizeBudget psp <s 0 then Inl (budgetError H psp)
        else
          (let perShardMaps = map (\<lambda>r. case r of None \<Rightarrow> [] | Some perCPU \<Rightarrow> perCPU) scattered in
           bindE (mergeCPUs ch (Suc t1) perShardMaps [0..<cpusCount]) (\<lambda>(merged, t2).
             let psp2 = psp1\<lparr>polls := Suc t2\<rparr> in
             if needStop ch t2 then Inr ([], psp2)
             else if psp_stateSizeBudget psp <s 0 then Inl (budgetError H psp)
             else bindE (nthE perShardMaps 0) (\<lambda>first.
                    Inr (filter (\<lambda>psm. entriesCount psm > 0) merged, psp2))))))"

definition mergeShardsParallel ::
  "helpers \<Rightarrow> 'a pipeStatsProcessor \<Rightarrow> error + ('a pipeStatsGroupMap list \<times> 'a pipeStatsProcessor)" where
  "mergeShardsParallel H psp =
     (if length (shards psp) = 1 then
        (let shard = shards psp ! 0
         in Inr (if entriesCount (shard_m shard) > 0 then [shard_m shard] else [], psp))
      else mergeShardsGeneral H psp)"

subsection \<open>The writer\<close>

text \<open>
  The writer of one map: its worker, the result columns, the length and the number of the
  rows buffered so far, the values of the row under construction, and the blocks it has
  written to the next pipe, oldest first.
\<close>

record pipeStatsWriter =
  psw_workerID :: nat
  rcs :: "resultColumn list"
  resultLen :: nat
  rowsCount :: nat
  psw_values :: "string list"
  written :: "writtenBlock list"

definition appendResultColumnWithName :: "resultColumn list \<Rightarrow> string \<Rightarrow> resultColumn list" where
  "appendResultColumnWithName dst nm = dst @ [\<lparr>rc_name = nm, rc_values = []\<rparr>]"

definition addValue :: "resultColumn \<Rightarrow> string \<Rightarrow> resultColumn" where
  "addValue rc v = rc\<lparr>rc_values := rc_values rc @ [v]\<rparr>"

definition resetValues :: "resultColumn \<Rightarrow> resultColumn" where
  "resetValues rc = rc\<lparr>rc_values := []\<rparr>"

definition newPipeStatsWriter :: "'a pipeStats \<Rightarrow> nat \<Rightarrow> pipeStatsWriter" where
  "newPipeStatsWriter ps workerID =
     (let rcs1 = fold (\<lambda>bf acc. appendResultColumnWithName acc (name bf)) (byFields ps) [];
          rcs2 = fold (\<lambda>fn acc. appendResultColumnWithName acc (resultName fn)) (funcs ps) rcs1
      in \<lparr>psw_workerID = workerID, rcs = rcs2, resultLen = 0, rowsCount = 0,
          psw_values = [], written = []\<rparr>)"

definition psw_flush :: "pipeStatsWriter \<Rightarrow> pipeStatsWriter" where
  "psw_flush psw =
     psw\<lparr>written := written psw
                     @ [\<lparr>wb_workerID = psw_workerID psw, wb_rcs = rcs psw, wb_rowsLen = rowsCount psw\<rparr>],
         resultLen := 0,
         rowsCount := 0,
         rcs := map resetValues (rcs psw),
         psw_values := []\<rparr>"

text \<open>
  The loop of \<^verbatim>\<open>writePipeStatsGroup\<close> over the processors of the group: every
  \<^verbatim>\<open>finalizeStats\<close> gets the stop channel and is told what a poll at that moment
  reads. The result is the values and the number of polls after the loop.
\<close>

fun finalizeAll :: "stopChannel \<Rightarrow> nat \<Rightarrow> 'a statsProcessor list \<Rightarrow> string list \<times> nat" where
  "finalizeAll ch t [] = ([], t)"
| "finalizeAll ch t (sfp # rest) =
     (let v = finalizeStats sfp (sp_state sfp) (needStop ch t);
          (vs, t') = finalizeAll ch (Suc t) rest
      in (v # vs, t'))"

definition writePipeStatsGroup ::
  "stopChannel \<Rightarrow> nat \<Rightarrow> pipeStatsWriter \<Rightarrow> 'a pipeStatsGroup \<Rightarrow> error + (pipeStatsWriter \<times> nat)" where
  "writePipeStatsGroup ch t psw psg =
     (let (finals, t1) = finalizeAll ch t (sfps psg);
          vals = psw_values psw @ finals in
      if length vals \<noteq> length (rcs psw)
      then Inl (Panic ''BUG: len(values) must be equal to len(rcs)'')
      else
        (let psw1 = psw\<lparr>psw_values := vals,
                        rcs := map (\<lambda>(rc, v). addValue rc v) (zip (rcs psw) vals),
                        resultLen := resultLen psw + sum_list (map length vals),
                        rowsCount := rowsCount psw + 1\<rparr>
         in if resultLen psw1 \<ge> 64000 then Inr (psw_flush psw1, t1) else Inr (psw1, t1)))"

text \<open>
  The loop of \<^verbatim>\<open>writeShardData\<close> that splits a composite key into the values of the
  by-fields.
\<close>

function unmarshalKey :: "helpers \<Rightarrow> string \<Rightarrow> error + string list" where
  "unmarshalKey H keyBuf =
     (if length keyBuf > 0 then
        (let (v, nSize) = UnmarshalBytes H keyBuf in
         if nSize \<le> 0 then Inl (Panic ''BUG: cannot unmarshal value from keyBuf'')
         else if nat nSize > length keyBuf then Inl (Panic ''slice bounds out of range'')
         else bindE (unmarshalKey H (drop (nat nSize) keyBuf)) (\<lambda>vs. Inr (v # vs)))
      else Inr [])"
  by pat_completeness auto
termination
  by (relation "measure (\<lambda>(H, keyBuf). length keyBuf)") auto

declare unmarshalKey.simps [simp del]

text \<open>
  One loop of \<^verbatim>\<open>writeShardData\<close> over a sub-map; \<open>keyValues\<close> rebuilds the values
  of the by-fields from the key. Every iteration polls the stop channel first. The result
  is the writer, whether the method returned because the channel is closed, and the
  number of polls after the loop.
\<close>

fun writeEntries ::
  "stopChannel \<Rightarrow> ('k \<Rightarrow> error + string list) \<Rightarrow> nat \<Rightarrow> ('k \<times> 'a pipeStatsGroup) list
     \<Rightarrow> pipeStatsWriter \<Rightarrow> error + (pipeStatsWriter \<times> bool \<times> nat)" where
  "writeEntries ch keyValues t [] psw = Inr (psw, False, t)"
| "writeEntries ch keyValues t ((k, psg) # rest) psw =
     (if needStop ch t then Inr (psw, True, Suc t)
      else bindE (keyValues k) (\<lambda>vs.
             bindE (writePipeStatsGroup ch (Suc t) (psw\<lparr>psw_values := vs\<rparr>) psg) (\<lambda>(psw', t1).
               writeEntries ch keyValues t1 rest psw')))"

text \<open>
  The values of the by-fields of a composite key: the key is split, and the number of
  values is checked against the number of by-fields.
\<close>

definition keyValuesMulti :: "helpers \<Rightarrow> 'a pipeStats \<Rightarrow> string \<Rightarrow> error + string list" where
  "keyValuesMulti H ps key =
     bindE (unmarshalKey H key) (\<lambda>vs.
       if length vs \<noteq> length (byFields ps)
       then Inl (Panic ''BUG: unexpected number of values decoded from keyBuf'')
       else Inr vs)"

definition writeShardData ::
  "helpers \<Rightarrow> stopChannel \<Rightarrow> nat \<Rightarrow> 'a pipeStats \<Rightarrow> pipeStatsWriter \<Rightarrow> 'a pipeStatsGroupMap
     \<Rightarrow> error + (pipeStatsWriter \<times> nat)" where
  "writeShardData H ch t ps psw psm =
     (if length (byFields ps) = 1 then
        bindE (writeEntries ch (\<lambda>n. Inr [marshalUint64String H n]) t (u64 psm) psw)
          (\<lambda>(psw1, stopped, t1).
             if stopped then Inr (psw1, t1)
             else bindE (writeEntries ch (\<lambda>n. Inr [marshalInt64String H n]) t1 (negative64 psm) psw1)
                    (\<lambda>(psw2, stopped, t2).
                       if stopped then Inr (psw2, t2)
                       else bindE (writeEntries ch (\<lambda>key. Inr [key]) t2 (strings psm) psw2)
                              (\<lambda>(psw3, stopped, t3). Inr (psw3, t3))))
      else
        bindE (writeEntries ch (keyValuesMulti H ps) t (strings psm) psw)
          (\<lambda>(psw1, stopped, t1). Inr (psw1, t1)))"

subsection \<open>Flush\<close>

text \<open>
  The goroutine that \<^verbatim>\<open>flush\<close> starts for the map \<open>psm\<close>: a new writer, the data
  of the map, the closing \<^verbatim>\<open>psw.flush()\<close>. Its value is the blocks it wrote and the
  number of polls after it. The goroutines are run one after the other, in the order of
  their workers.
\<close>

definition writeMap ::
  "helpers \<Rightarrow> stopChannel \<Rightarrow> nat \<Rightarrow> 'a pipeStats \<Rightarrow> nat \<Rightarrow> 'a pipeStatsGroupMap
     \<Rightarrow> error + (writtenBlock list \<times> nat)" where
  "writeMap H ch t ps workerID psm =
     bindE (writeShardData H ch t ps (newPipeStatsWriter ps workerID) psm)
       (\<lambda>(psw, t1). Inr (written (psw_flush psw), t1))"

fun writeMaps ::
  "helpers \<Rightarrow> stopChannel \<Rightarrow> nat \<Rightarrow> 'a pipeStats \<Rightarrow> nat \<Rightarrow> 'a pipeStatsGroupMap list
     \<Rightarrow> error + (writtenBlock list \<times> nat)" where
  "writeMaps H ch t ps workerID [] = Inr ([], t)"
| "writeMaps H ch t ps workerID (psm # rest) =
     bindE (writeMap H ch t ps workerID psm) (\<lambda>(blocks, t1).
       bindE (writeMaps H ch t1 ps (Suc workerID) rest) (\<lambda>(blocks', t2). Inr (blocks @ blocks', t2)))"

text \<open>
  The special case of \<^verbatim>\<open>flush\<close> for zero matching rows: the first shard is
  initialised again and gets the group of the empty key.
\<close>

definition emptyGroupFallback ::
  "'a pipeStatsProcessor \<Rightarrow> error + ('a pipeStatsGroupMap list \<times> 'a pipeStatsProcessor)" where
  "emptyGroupFallback psp =
     bindE (nthE (shards psp) 0) (\<lambda>shard0.
       let shard = shard_init (psp_ps psp) shard0;
           (r, shard1) = getPipeStatsGroupString (psp_ps psp) shard []
       in Inr ([shard_m shard1], psp\<lparr>shards := (shards psp)[0 := shard1]\<rparr>))"

text \<open>
  \<^verbatim>\<open>pipeStatsProcessor.flush\<close>. The result is the processor after the call and the
  error the call returns (\<open>None\<close> for \<^verbatim>\<open>nil\<close>); a panic is reported as the error,
  with the processor as it was before the step that panicked.
\<close>

definition psp_flush :: "helpers \<Rightarrow> 'a pipeStatsProcessor \<Rightarrow> 'a pipeStatsProcessor \<times> error option" where
  "psp_flush H psp =
     (if psp_stateSizeBudget psp \<le>s 0 then (psp, Some (budgetError H psp))
      else case mergeShardsParallel H psp of
             Inl e \<Rightarrow> (psp, Some e)
           | Inr (psms, psp0) \<Rightarrow>
               (let psp1 = psp0\<lparr>polls := Suc (polls psp0)\<rparr> in
                if needStop (stopCh psp0) (polls psp0) then (psp1, None)
                else
                  (case (if length (byFields (psp_ps psp1)) = 0 \<and> length psms = 0
                         then emptyGroupFallback psp1 else Inr (psms, psp1)) of
                     Inl e \<Rightarrow> (psp1, Some e)
                   | Inr (psms', psp2) \<Rightarrow>
                       (case writeMaps H (stopCh psp2) (polls psp2) (psp_ps psp2) 0 psms' of
                          Inl e \<Rightarrow> (psp2, Some e)
                        | Inr (blocks, t) \<Rightarrow>
                            (psp2\<lparr>ppNext := ppNext psp2 @ blocks, polls := t\<rparr>, None)))))"

section \<open>Sample inputs\<close>

text \<open>
  Concrete values at which the theorems below are evaluated. The implementations of the
  stats functions and of the helpers are not among the sources; the following ones are
  small stand-ins that satisfy the interfaces: a counter of rows, a function whose
  result is a long string, decimal parsing and formatting, a key encoding with a
  one-byte length prefix, and a hash that reads the first byte of the key.
\<close>

definition countProcessor :: "nat statsProcessor" where
  "countProcessor =
     \<lparr>sp_state = 0,
      updateStatsForAllRows = (\<lambda>br s. (s + rowsLen br, 0)),
      updateStatsForRow = (\<lambda>br i s. (Suc s, 0)),
      mergeState = (\<lambda>s t. s + t),
      finalizeStats = (\<lambda>s stop. showNat s)\<rparr>"

definition statsCount :: "nat statsFunc" where
  "statsCount = \<lparr>sf_String = ''count(*)'', newStatsProcessor = (countProcessor, 8)\<rparr>"

definition longProcessor :: "nat statsProcessor" where
  "longProcessor = countProcessor\<lparr>finalizeStats := (\<lambda>s stop. replicate 64000 CHR ''x'')\<rparr>"

definition statsLong :: "nat statsFunc" where
  "statsLong = \<lparr>sf_String = ''values(x)'', newStatsProcessor = (longProcessor, 8)\<rparr>"


fun parseDigits :: "string \<Rightarrow> nat \<Rightarrow> nat option" where
  "parseDigits [] acc = Some acc"
| "parseDigits (c # rest) acc =
     (if (48 :: nat) \<le> of_char c \<and> (of_char c :: nat) \<le> 57
      then parseDigits rest (10 * acc + (of_char c - 48))
      else None)"

definition sampleParseUint64 :: "string \<Rightarrow> uint64 option" where
  "sampleParseUint64 s =
     (if s = [] then None
      else case parseDigits s 0 of
             None \<Rightarrow> None
           | Some n \<Rightarrow> if n < 2 ^ 64 then Some (of_nat n) else None)"

definition sampleParseInt64 :: "string \<Rightarrow> int64 option" where
  "sampleParseInt64 s =
     (case s of
        [] \<Rightarrow> None
      | c # rest \<Rightarrow>
          if c = CHR ''-'' then
            (if rest = [] then None
             else case parseDigits rest 0 of
                    None \<Rightarrow> None
                  | Some n \<Rightarrow> if n \<le> 2 ^ 63 then Some (- of_nat n) else None)
          else
            (case parseDigits s 0 of
               None \<Rightarrow> None
             | Some n \<Rightarrow> if n < 2 ^ 63 then Some (of_nat n) else None))"

definition sampleColumn :: "blockResult \<Rightarrow> string \<Rightarrow> blockResultColumn" where
  "sampleColumn br nm =
     (case filter (\<lambda>c. c_name c = nm) (cs br) of
        [] \<Rightarrow> \<lparr>c_name = nm, isConst = True, valueType = valueTypeString, valuesEncoded = [[]]\<rparr>
      | c # rest \<Rightarrow> c)"

definition sampleHelpers :: helpers where
  "sampleHelpers =
     \<lparr>tryParseUint64 = sampleParseUint64,
      tryParseInt64 = sampleParseInt64,
      getColumnByName = sampleColumn,
      getBucketedValue = (\<lambda>br v bf. v),
      getValuesBucketed = (\<lambda>c br bf. if isConst c then replicate (rowsLen br) (hd (valuesEncoded c))
                                       else valuesEncoded c),
      getValuesEncoded = (\<lambda>c br. valuesEncoded c),
      unmarshalUint8 = (\<lambda>s. of_char (hd s)),
      unmarshalUint16 = (\<lambda>s. of_char (hd s)),
      unmarshalUint32 = (\<lambda>s. of_char (hd s)),
      unmarshalUint64 = (\<lambda>s. of_char (hd s)),
      unmarshalInt64 = (\<lambda>s. of_char (hd s)),
      MarshalBytes = (\<lambda>dst b. dst @ char_of (length b) # b),
      UnmarshalBytes = (\<lambda>src. case src of [] \<Rightarrow> ([], 0)
                               | c # rest \<Rightarrow> (take (of_char c) rest, 1 + int (of_char c :: nat))),
      marshalUint64String = (\<lambda>n. showNat (unat n)),
      marshalInt64String = (\<lambda>n. formatInt (sint n)),
      Sum64 = (\<lambda>k. case k of [] \<Rightarrow> 0 | c # rest \<Rightarrow> of_char c),
      AvailableCPUs = 2,
      quoteTokenIfNeeded = (\<lambda>s. s)\<rparr>"

definition countFunc :: "nat pipeStatsFunc" where
  "countFunc = \<lparr>psf_f = statsCount, iff = None, resultName = ''n''\<rparr>"


definition longFunc :: "nat pipeStatsFunc" where
  "longFunc = \<lparr>psf_f = statsLong, iff = None, resultName = ''v''\<rparr>"

definition byX :: byStatsField where
  "byX = \<lparr>name = ''x'', bucketSizeStr = [], bucketOffsetStr = []\<rparr>"

definition byY :: byStatsField where
  "byY = \<lparr>name = ''y'', bucketSizeStr = [], bucketOffsetStr = []\<rparr>"

definition pipeCount :: "nat pipeStats" where
  "pipeCount = \<lparr>byFields = [], funcs = [countFunc]\<rparr>"

definition pipeCountBy :: "nat pipeStats" where
  "pipeCountBy = \<lparr>byFields = [byX], funcs = [countFunc]\<rparr>"

definition emptyBlock :: blockResult where
  "emptyBlock = \<lparr>rowsLen = 0, cs = []\<rparr>"

definition sampleBlock :: blockResult where
  "sampleBlock =
     \<lparr>rowsLen = 3,
      cs = [\<lparr>c_name = ''x'', isConst = False, valueType = valueTypeString,
             valuesEncoded = [''7'', ''-3'', ''abc'']\<rparr>]\<rparr>"

definition emptyShard :: "nat pipeStats \<Rightarrow> int64 \<Rightarrow> nat pipeStatsProcessorShard" where
  "emptyShard ps budget = \<lparr>shard_m = psm_init, bms = replicate (length (funcs ps)) [], stateSizeBudget = budget\<rparr>"

definition sampleProcessor :: "nat pipeStats \<Rightarrow> int64 \<Rightarrow> int64 \<Rightarrow> nat pipeStatsProcessor" where
  "sampleProcessor ps localBudget globalBudget =
     \<lparr>psp_ps = ps, stopCh = None, polls = 0, cancelCalls = 0, ppNext = [],
      shards = [emptyShard ps localBudget],
      maxStateSize = 100 * 2 ^ 20, psp_stateSizeBudget = globalBudget\<rparr>"



definition countGroup :: "nat \<Rightarrow> nat pipeStatsGroup" where
  "countGroup n = \<lparr>psg_funcs = [countFunc], sfps = [countProcessor\<lparr>sp_state := n\<rparr>]\<rparr>"

definition groupedShard :: "nat pipeStatsProcessorShard" where
  "groupedShard =
     \<lparr>shard_m = \<lparr>u64 = [(7, countGroup 1)],
                 negative64 = [(- 3, countGroup 1)],
                 strings = [(''abc'', countGroup 1)]\<rparr>,
      bms = [[]],
      stateSizeBudget = - 131\<rparr>"

definition groupedProcessor :: "nat pipeStatsProcessor" where
  "groupedProcessor = (sampleProcessor pipeCountBy 0 1000)\<lparr>shards := [groupedShard]\<rparr>"

definition groupedBlock :: writtenBlock where
  "groupedBlock =
     \<lparr>wb_workerID = 0,
      wb_rcs = [\<lparr>rc_name = ''x'', rc_values = [''7'', ''-3'', ''abc'']\<rparr>,
                \<lparr>rc_name = ''n'', rc_values = [''1'', ''1'', ''1'']\<rparr>],
      wb_rowsLen = 3\<rparr>"

definition pipeLong :: "nat pipeStats" where
  "pipeLong = \<lparr>byFields = [], funcs = [longFunc]\<rparr>"

definition longGroupProcessor :: "nat pipeStatsProcessor" where
  "longGroupProcessor =
     (sampleProcessor pipeLong 0 1000)
       \<lparr>shards := [\<lparr>shard_m = \<lparr>u64 = [], negative64 = [],
                               strings = [([], \<lparr>psg_funcs = [longFunc],
                                                sfps = [longProcessor\<lparr>sp_state := 3\<rparr>]\<rparr>)]\<rparr>,
                    bms = [[]],
                    stateSizeBudget = - 48\<rparr>]\<rparr>"

section \<open>Basic facts\<close>

lemma bindE_Inr [simp]: "bindE (Inr x) k = k x"
  by (simp add: bindE_def)

lemma bindE_Inl [simp]: "bindE (Inl e) k = Inl e"
  by (simp add: bindE_def)

lemma nthE_in_range [simp]: "i < length xs \<Longrightarrow> nthE xs i = Inr (xs ! i)"
  by (simp add: nthE_def)


lemma needStop_None [simp]: "needStop None t = False"
  by (simp add: needStop_def)

section \<open>Rows of the output\<close>

text \<open>
  The rows of a written block, read across its result columns, and the rows a writer
  has produced so far: those of the blocks it has written and those it still buffers.
\<close>

definition blockRows :: "writtenBlock \<Rightarrow> string list list" where
  "blockRows b = map (\<lambda>r. map (\<lambda>rc. rc_values rc ! r) (wb_rcs b)) [0..<wb_rowsLen b]"

definition pendingRows :: "pipeStatsWriter \<Rightarrow> string list list" where
  "pendingRows psw = map (\<lambda>r. map (\<lambda>rc. rc_values rc ! r) (rcs psw)) [0..<rowsCount psw]"

definition writerRows :: "pipeStatsWriter \<Rightarrow> string list list" where
  "writerRows psw = concat (map blockRows (written psw)) @ pendingRows psw"

definition columnNames :: "'a pipeStats \<Rightarrow> string list" where
  "columnNames ps = map name (byFields ps) @ map resultName (funcs ps)"

text \<open>
  The final values of a group, in the order of its processors: the processor at position
  \<open>i\<close> is finalized with what the poll number \<open>t + i\<close> reads from the stop channel.
\<close>

definition finalValuesAt :: "stopChannel \<Rightarrow> nat \<Rightarrow> 'a pipeStatsGroup \<Rightarrow> string list" where
  "finalValuesAt ch t psg =
     map (\<lambda>i. finalizeStats (sfps psg ! i) (sp_state (sfps psg ! i)) (needStop ch (t + i)))
       [0..<length (sfps psg)]"

text \<open>The final values of a group when the stop channel stays open.\<close>

definition finalValues :: "'a pipeStatsGroup \<Rightarrow> string list" where
  "finalValues psg = map (\<lambda>sfp. finalizeStats sfp (sp_state sfp) False) (sfps psg)"

text \<open>
  The values of the by-fields of a key, as \<open>keyValues\<close> rebuilds them (no value where
  it fails).
\<close>

definition keyValuesOf :: "('k \<Rightarrow> error + string list) \<Rightarrow> 'k \<Rightarrow> string list" where
  "keyValuesOf keyValues k = (case keyValues k of Inr kv \<Rightarrow> kv | Inl err \<Rightarrow> [])"

text \<open>
  The rows of the groups of a sub-map, in the order of the sub-map, as long as the stop
  channel reads open: the group is polled for at \<open>t\<close>, its processors are finalized
  at the polls that follow, and the next group is polled for after them. The result is
  the rows, whether the channel was read closed, and the number of polls afterwards.
\<close>

fun entriesRows ::
  "stopChannel \<Rightarrow> ('k \<Rightarrow> error + string list) \<Rightarrow> nat \<Rightarrow> ('k \<times> 'a pipeStatsGroup) list
     \<Rightarrow> string list list \<times> bool \<times> nat" where
  "entriesRows ch keyValues t [] = ([], False, t)"
| "entriesRows ch keyValues t ((k, psg) # rest) =
     (if needStop ch t then ([], True, Suc t)
      else (let (rows, stopped, t') =
                  entriesRows ch keyValues (Suc t + length (sfps psg)) rest
            in ((keyValuesOf keyValues k @ finalValuesAt ch (Suc t) psg) # rows, stopped, t')))"

text \<open>
  The rows of a map: with a single by-field the groups of the three sub-maps in the order
  \<open>u64\<close>, \<open>negative64\<close>, \<open>strings\<close>, the key formatted as a decimal number for the
  first two; otherwise the groups of \<open>strings\<close>, the key split into its values.
\<close>

definition mapRowsAt ::
  "helpers \<Rightarrow> stopChannel \<Rightarrow> nat \<Rightarrow> 'a pipeStats \<Rightarrow> 'a pipeStatsGroupMap \<Rightarrow> string list list \<times> nat" where
  "mapRowsAt H ch t ps psm =
     (if length (byFields ps) = 1 then
        (let (r1, s1, t1) = entriesRows ch (\<lambda>n. Inr [marshalUint64String H n]) t (u64 psm) in
         if s1 then (r1, t1)
         else (let (r2, s2, t2) = entriesRows ch (\<lambda>n. Inr [marshalInt64String H n]) t1 (negative64 psm) in
               if s2 then (r1 @ r2, t2)
               else (let (r3, s3, t3) = entriesRows ch (\<lambda>key. Inr [key]) t2 (strings psm)
                     in (r1 @ r2 @ r3, t3))))
      else (let (r, s, t1) = entriesRows ch (keyValuesMulti H ps) t (strings psm) in (r, t1)))"

fun mapsRowsAt ::
  "helpers \<Rightarrow> stopChannel \<Rightarrow> nat \<Rightarrow> 'a pipeStats \<Rightarrow> 'a pipeStatsGroupMap list \<Rightarrow> string list list list \<times> nat" where
  "mapsRowsAt H ch t ps [] = ([], t)"
| "mapsRowsAt H ch t ps (psm # rest) =
     (let (rows, t1) = mapRowsAt H ch t ps psm;
          (rowss, t2) = mapsRowsAt H ch t1 ps rest
      in (rows # rowss, t2))"

text \<open>The rows of a map when the stop channel stays open.\<close>

definition entryRow :: "('k \<Rightarrow> error + string list) \<Rightarrow> 'k \<times> 'a pipeStatsGroup \<Rightarrow> string list" where
  "entryRow keyValues e = keyValuesOf keyValues (fst e) @ finalValues (snd e)"

definition mapRows :: "helpers \<Rightarrow> 'a pipeStats \<Rightarrow> 'a pipeStatsGroupMap \<Rightarrow> string list list" where
  "mapRows H ps psm =
     (if length (byFields ps) = 1 then
        map (entryRow (\<lambda>n. Inr [marshalUint64String H n])) (u64 psm) @
        map (entryRow (\<lambda>n. Inr [marshalInt64String H n])) (negative64 psm) @
        map (entryRow (\<lambda>key. Inr [key])) (strings psm)
      else map (entryRow (keyValuesMulti H ps)) (strings psm))"

text \<open>
  The blocks in which a writer hands over its rows: \<open>len\<close> is the length of the values
  and \<open>pend\<close> the rows buffered so far. A row that takes the length to 64000 bytes or
  more closes a block; the rows buffered at the end, if any, are the last block, and
  the last block is empty when no row is buffered then.
\<close>

fun chunkRows :: "nat \<Rightarrow> string list list \<Rightarrow> string list list \<Rightarrow> string list list list" where
  "chunkRows len pend [] = [pend]"
| "chunkRows len pend (row # rest) =
     (if len + sum_list (map length row) \<ge> 64000
      then (pend @ [row]) # chunkRows 0 [] rest
      else chunkRows (len + sum_list (map length row)) (pend @ [row]) rest)"

text \<open>
  The blocks a writer will have handed over once it has written the rows \<open>rest\<close> and
  closed: the blocks written so far, then the rows it buffers and \<open>rest\<close> in blocks.
\<close>

definition writerChunks :: "pipeStatsWriter \<Rightarrow> string list list \<Rightarrow> string list list list" where
  "writerChunks psw rest =
     map blockRows (written psw) @ chunkRows (resultLen psw) (pendingRows psw) rest"

text \<open>
  The invariant of a writer: the names of its columns are fixed, every column buffers
  one value per buffered row, and every block written so far carries the same column
  names, has at least one row, one value per row in every column, and names the worker
  of the writer.
\<close>

definition writer_inv :: "string list \<Rightarrow> pipeStatsWriter \<Rightarrow> bool" where
  "writer_inv N psw \<longleftrightarrow>
     map rc_name (rcs psw) = N \<and>
     list_all (\<lambda>rc. length (rc_values rc) = rowsCount psw) (rcs psw) \<and>
     list_all (\<lambda>b. map rc_name (wb_rcs b) = N \<and> 1 \<le> wb_rowsLen b \<and>
                     list_all (\<lambda>rc. length (rc_values rc) = wb_rowsLen b) (wb_rcs b) \<and>
                     wb_workerID b = psw_workerID psw) (written psw)"

text \<open>
  A group can be written without a panic when its key yields values and the values and
  the processors together are as many as the columns.
\<close>

definition entryWritable ::
  "('k \<Rightarrow> error + string list) \<Rightarrow> nat \<Rightarrow> 'k \<times> 'a pipeStatsGroup \<Rightarrow> bool" where
  "entryWritable keyValues width e \<longleftrightarrow>
     (case keyValues (fst e) of
        Inr kv \<Rightarrow> length kv + length (sfps (snd e)) = width
      | Inl err \<Rightarrow> False)"

definition mapWritable :: "helpers \<Rightarrow> 'a pipeStats \<Rightarrow> 'a pipeStatsGroupMap \<Rightarrow> bool" where
  "mapWritable H ps psm \<longleftrightarrow>
     (if length (byFields ps) = 1 then
        list_all (entryWritable (\<lambda>n. Inr [marshalUint64String H n]) (length (columnNames ps))) (u64 psm) \<and>
        list_all (entryWritable (\<lambda>n. Inr [marshalInt64String H n]) (length (columnNames ps))) (negative64 psm) \<and>
        list_all (entryWritable (\<lambda>key. Inr [key]) (length (columnNames ps))) (strings psm)
      else list_all (entryWritable (keyValuesMulti H ps) (length (columnNames ps))) (strings psm))"

text \<open>
  The maps that \<^verbatim>\<open>flush\<close> hands to its writers, and the processor at that moment:
  the result of the merge, or the map with the group of the empty key when there are no
  by-fields and the merge left no map; nothing when the poll after the merge reads the
  stop channel closed.
\<close>

definition flushMaps ::
  "helpers \<Rightarrow> 'a pipeStatsProcessor \<Rightarrow> error + ('a pipeStatsGroupMap list \<times> 'a pipeStatsProcessor) option" where
  "flushMaps H psp =
     bindE (mergeShardsParallel H psp) (\<lambda>(psms, psp0).
       let psp1 = psp0\<lparr>polls := Suc (polls psp0)\<rparr> in
       if needStop (stopCh psp0) (polls psp0) then Inr None
       else if length (byFields (psp_ps psp1)) = 0 \<and> length psms = 0
       then bindE (emptyGroupFallback psp1) (\<lambda>r. Inr (Some r))
       else Inr (Some (psms, psp1)))"

text \<open>
  The contract of the byte encoding of composite keys (\<^verbatim>\<open>encoding.MarshalBytes\<close> and
  \<^verbatim>\<open>encoding.UnmarshalBytes\<close>, not among the sources) for one value: the encoding
  is appended to the buffer, it is not empty, and decoding a buffer that starts with it
  returns the value and the length of the encoding.
\<close>

definition encodable :: "helpers \<Rightarrow> string \<Rightarrow> bool" where
  "encodable H v \<longleftrightarrow>
     MarshalBytes H [] v \<noteq> [] \<and>
     (\<forall>dst. MarshalBytes H dst v = dst @ MarshalBytes H [] v) \<and>
     (\<forall>rest. UnmarshalBytes H (MarshalBytes H [] v @ rest) = (v, int (length (MarshalBytes H [] v))))"

text \<open>
  The length of the values that a writer buffers after it has written the rows, when it
  buffered \<open>len\<close> bytes before: a row that takes the length to 64000 bytes or more is
  handed over with the rows buffered before it, and the length starts again from zero.
\<close>

fun bufferedLen :: "nat \<Rightarrow> string list list \<Rightarrow> nat" where
  "bufferedLen len [] = len"
| "bufferedLen len (row # rest) =
     (if len + sum_list (map length row) \<ge> 64000 then bufferedLen 0 rest
      else bufferedLen (len + sum_list (map length row)) rest)"

text \<open>
  The group that \<^verbatim>\<open>newPipeStatsGroup\<close> creates: one new processor per function of
  the pipe, none of which has seen a row. The map that holds this group under the empty
  key and nothing else.
\<close>

definition freshGroup :: "'a pipeStats \<Rightarrow> 'a pipeStatsGroup" where
  "freshGroup ps =
     \<lparr>psg_funcs = funcs ps, sfps = map (\<lambda>fn. fst (newStatsProcessor (psf_f fn))) (funcs ps)\<rparr>"

definition emptyKeyMap :: "'a pipeStats \<Rightarrow> 'a pipeStatsGroupMap" where
  "emptyKeyMap ps = \<lparr>u64 = [], negative64 = [], strings = [([], freshGroup ps)]\<rparr>"

text \<open>
  The blocks of the writer of worker \<open>i\<close> for the rows \<open>rows\<close>: the rows in blocks.
  There is at least one block, every block names the worker, every block except the last
  one has at least one row, and the last block has no row exactly when the writer wrote
  no row at all or the row it wrote last took the buffered length to 64000 bytes or more.
\<close>

definition writerBlocks :: "nat \<Rightarrow> string list list \<Rightarrow> writtenBlock list \<Rightarrow> bool" where
  "writerBlocks i rows bs \<longleftrightarrow>
     map blockRows bs = chunkRows 0 [] rows \<and>
     bs \<noteq> [] \<and>
     list_all (\<lambda>b. wb_workerID b = i) bs \<and>
     list_all (\<lambda>b. 1 \<le> wb_rowsLen b) (butlast bs) \<and>
     (wb_rowsLen (last bs) = 0 \<longleftrightarrow>
        rows = [] \<or>
        (rows \<noteq> [] \<and> 64000 \<le> bufferedLen 0 (butlast rows) + sum_list (map length (last rows))))"

section \<open>Facts about the sample inputs\<close>

lemma sampleHelpers_fields:
  "tryParseUint64 sampleHelpers = sampleParseUint64"
  "tryParseInt64 sampleHelpers = sampleParseInt64"
  "getColumnByName sampleHelpers = sampleColumn"
  "getBucketedValue sampleHelpers = (\<lambda>br v bf. v)"
  "getValuesBucketed sampleHelpers =
     (\<lambda>c br bf. if isConst c then replicate (rowsLen br) (hd (valuesEncoded c)) else valuesEncoded c)"
  "getValuesEncoded sampleHelpers = (\<lambda>c br. valuesEncoded c)"
  "MarshalBytes sampleHelpers = (\<lambda>dst b. dst @ char_of (length b) # b)"
  "UnmarshalBytes sampleHelpers =
     (\<lambda>src. case src of [] \<Rightarrow> ([], 0)
             | c # rest \<Rightarrow> (take (of_char c) rest, 1 + int (of_char c :: nat)))"
  "marshalUint64String sampleHelpers = (\<lambda>n. showNat (unat n))"
  "marshalInt64String sampleHelpers = (\<lambda>n. formatInt (sint n))"
  "Sum64 sampleHelpers = (\<lambda>k. case k of [] \<Rightarrow> 0 | c # rest \<Rightarrow> of_char c)"
  "AvailableCPUs sampleHelpers = 2"
  "quoteTokenIfNeeded sampleHelpers = (\<lambda>s. s)"
  by (simp_all add: sampleHelpers_def)

lemma sampleParse_values:
  "sampleParseUint64 ''7'' = Some 7"
  "sampleParseUint64 ''-3'' = None"
  "sampleParseInt64 ''-3'' = Some (- 3)"
  "sampleParseUint64 ''abc'' = None"
  "sampleParseUint64 ''-0'' = None"
  "sampleParseInt64 ''-0'' = Some 0"
  by (simp_all add: sampleParseUint64_def sampleParseInt64_def)

lemma psp_writeBlock_sample:
  "psp_writeBlock sampleHelpers (sampleProcessor pipeCountBy 0 1000) 0 sampleBlock = Inr groupedProcessor"
  by (simp add: psp_writeBlock_def sampleProcessor_def pipeCountBy_def sampleBlock_def
      stealBudget_loop.simps emptyShard_def shard_writeBlock_def applyPerFunctionFilters_def
      countFunc_def updateStatsSingleColumn_def sampleHelpers_fields sampleColumn_def byX_def
      hasBucketConfig_def getPipeStatsGroupGeneric_def sampleParse_values
      getPipeStatsGroupUint64_def getPipeStatsGroupNegativeInt64_def getPipeStatsGroupString_def
      newPipeStatsGroup_def statsCount_def countProcessor_def shard_updateRow_def lookupGroup_def
      psg_updateStatsForRow_def storeGroup_def psm_init_def groupedProcessor_def groupedShard_def
      countGroup_def word_sless_alt Let_def eval_nat_numeral)

lemma psp_flush_grouped:
  "psp_flush sampleHelpers groupedProcessor =
     (groupedProcessor\<lparr>ppNext := [groupedBlock], polls := 7\<rparr>, None)"
  by (simp add: psp_flush_def groupedProcessor_def groupedShard_def sampleProcessor_def
      mergeShardsParallel_def entriesCount_def pipeCountBy_def writeMap_def writeShardData_def
      newPipeStatsWriter_def appendResultColumnWithName_def byX_def countFunc_def
      sampleHelpers_fields writePipeStatsGroup_def countGroup_def countProcessor_def
      showNat.simps digitChar_def formatInt_def addValue_def psw_flush_def resetValues_def
      word_sle_eq Let_def groupedBlock_def)

lemma flushMaps_grouped:
  "flushMaps sampleHelpers groupedProcessor =
     Inr (Some ([shard_m groupedShard], groupedProcessor\<lparr>polls := 1\<rparr>))"
  by (simp add: flushMaps_def groupedProcessor_def groupedShard_def sampleProcessor_def
      mergeShardsParallel_def entriesCount_def pipeCountBy_def Let_def)

lemma psp_writeBlock_long:
  "psp_writeBlock sampleHelpers (sampleProcessor pipeLong 0 1000) 0 sampleBlock = Inr longGroupProcessor"
  by (simp add: psp_writeBlock_def sampleProcessor_def pipeLong_def sampleBlock_def
      stealBudget_loop.simps emptyShard_def shard_writeBlock_def applyPerFunctionFilters_def
      longFunc_def getPipeStatsGroupString_def
      newPipeStatsGroup_def statsLong_def longProcessor_def countProcessor_def shard_updateAllRows_def lookupGroup_def
      psg_updateStatsForAllRows_def storeGroup_def psm_init_def longGroupProcessor_def
      word_sless_alt Let_def)

lemma psp_flush_long:
  "psp_flush sampleHelpers longGroupProcessor =
     (longGroupProcessor
        \<lparr>ppNext := [\<lparr>wb_workerID = 0,
                      wb_rcs = [\<lparr>rc_name = ''v'', rc_values = [replicate 64000 CHR ''x'']\<rparr>],
                      wb_rowsLen = 1\<rparr>,
                    \<lparr>wb_workerID = 0,
                      wb_rcs = [\<lparr>rc_name = ''v'', rc_values = []\<rparr>],
                      wb_rowsLen = 0\<rparr>],
          polls := 3\<rparr>,
      None)"
  by (simp add: psp_flush_def longGroupProcessor_def sampleProcessor_def
      mergeShardsParallel_def entriesCount_def pipeLong_def writeMap_def writeShardData_def
      newPipeStatsWriter_def appendResultColumnWithName_def longFunc_def keyValuesMulti_def
      unmarshalKey.simps
      sampleHelpers_fields writePipeStatsGroup_def longProcessor_def countProcessor_def
      addValue_def psw_flush_def resetValues_def
      word_sle_eq Let_def)

section \<open>The memory budget protocol of writeBlock\<close>

declare stealBudget_loop.simps [simp del]

lemma stealBudget_loop_frame:
  "stealBudget_loop psp w = (psp1, b) \<Longrightarrow>
     map shard_m (shards psp1) = map shard_m (shards psp) \<and>
     map bms (shards psp1) = map bms (shards psp) \<and>
     length (shards psp1) = length (shards psp) \<and>
     psp_ps psp1 = psp_ps psp \<and> ppNext psp1 = ppNext psp \<and> stopCh psp1 = stopCh psp \<and>
     maxStateSize psp1 = maxStateSize psp"
proof (induction psp w arbitrary: psp1 b rule: stealBudget_loop.induct)
  case (1 psp w)
  show ?case
  proof (cases "w < length (shards psp) \<and> stateSizeBudget (shards psp ! w) <s 0")
    case False
    with "1.prems" show ?thesis
      by (simp add: stealBudget_loop.simps [of psp w])
  next
    case True
    note c = True
    show ?thesis
    proof (cases "psp_stateSizeBudget psp - stateSizeBudgetChunk <s 0")
      case True
      with c "1.prems" show ?thesis
        by (auto simp add: stealBudget_loop.simps [of psp w] Let_def split: if_splits)
    next
      case False
      let ?psp1 = "psp\<lparr>psp_stateSizeBudget := psp_stateSizeBudget psp - stateSizeBudgetChunk\<rparr>"
      let ?sh = "shards ?psp1 ! w"
      let ?psp2 = "?psp1\<lparr>shards := (shards ?psp1)
                            [w := ?sh\<lparr>stateSizeBudget := stateSizeBudget ?sh + stateSizeBudgetChunk\<rparr>]\<rparr>"
      have eq: "stealBudget_loop ?psp2 w = (psp1, b)"
        using c False "1.prems" by (simp add: stealBudget_loop.simps [of psp w] Let_def)
      have ih: "map shard_m (shards psp1) = map shard_m (shards ?psp2) \<and>
                map bms (shards psp1) = map bms (shards ?psp2) \<and>
                length (shards psp1) = length (shards ?psp2) \<and>
                psp_ps psp1 = psp_ps ?psp2 \<and> ppNext psp1 = ppNext ?psp2 \<and>
                stopCh psp1 = stopCh ?psp2 \<and> maxStateSize psp1 = maxStateSize ?psp2"
        using "1.IH" [OF c refl refl False refl eq] .
      have "map shard_m (shards ?psp2) = map shard_m (shards psp)"
        using c by (simp add: map_update list_update_same_conv)
      moreover have "map bms (shards ?psp2) = map bms (shards psp)"
        using c by (simp add: map_update list_update_same_conv)
      ultimately show ?thesis using ih by simp
    qed
  qed
qed

lemma stealBudget_loop_proceed:
  "stealBudget_loop psp w = (psp1, True) \<Longrightarrow> w < length (shards psp) \<Longrightarrow>
     0 \<le>s stateSizeBudget (shards psp1 ! w)"
proof (induction psp w arbitrary: psp1 rule: stealBudget_loop.induct)
  case (1 psp w)
  show ?case
  proof (cases "stateSizeBudget (shards psp ! w) <s 0")
    case False
    with "1.prems" show ?thesis
      by (auto simp add: stealBudget_loop.simps [of psp w] word_sless_alt word_sle_eq)
  next
    case True
    with "1.prems" have c: "w < length (shards psp) \<and> stateSizeBudget (shards psp ! w) <s 0"
      by simp
    show ?thesis
    proof (cases "psp_stateSizeBudget psp - stateSizeBudgetChunk <s 0")
      case True
      with c "1.prems" show ?thesis
        by (auto simp add: stealBudget_loop.simps [of psp w] Let_def split: if_splits)
    next
      case False
      let ?psp1 = "psp\<lparr>psp_stateSizeBudget := psp_stateSizeBudget psp - stateSizeBudgetChunk\<rparr>"
      let ?sh = "shards ?psp1 ! w"
      let ?psp2 = "?psp1\<lparr>shards := (shards ?psp1)
                            [w := ?sh\<lparr>stateSizeBudget := stateSizeBudget ?sh + stateSizeBudgetChunk\<rparr>]\<rparr>"
      have eq: "stealBudget_loop ?psp2 w = (psp1, True)"
        using c False "1.prems" by (simp add: stealBudget_loop.simps [of psp w] Let_def)
      show ?thesis
        using "1.IH" [OF c refl refl False refl eq] "1.prems" by simp
    qed
  qed
qed

text \<open>
  C9. A call of \<^verbatim>\<open>writeBlock\<close> with a block of zero rows, for any worker, returns
  the processor as it was: the group maps and the local budget of every shard, the
  global budget and the number of calls of \<^verbatim>\<open>cancel()\<close> are unchanged, and no
  processor of any group is updated.
\<close>

theorem writeBlock_zero_rows_noop:
  "rowsLen br = 0 \<Longrightarrow> psp_writeBlock H psp workerID br = Inr psp"
  by (simp add: psp_writeBlock_def)

theorem writeBlock_zero_rows_noop_witness:
  "rowsLen emptyBlock = 0 \<and>
   psp_writeBlock sampleHelpers (sampleProcessor pipeCount (- 5) 1000) 0 emptyBlock
     = Inr (sampleProcessor pipeCount (- 5) 1000)"
proof -
  have h: "rowsLen emptyBlock = 0"
    by (simp add: emptyBlock_def)
  show ?thesis
    using h writeBlock_zero_rows_noop [OF h, of sampleHelpers "sampleProcessor pipeCount (- 5) 1000" 0]
    by simp
qed

text \<open>
  C2. A call of \<^verbatim>\<open>writeBlock\<close> with a block of at least one row, for a worker
  that has a shard. While the local budget of the shard is negative, one chunk of
  \<open>2 ^ 20\<close> bytes is subtracted from the global budget. If the global budget is
  negative after the subtraction, the call returns with the shards as they were, and
  \<^verbatim>\<open>cancel()\<close> is called exactly when the global budget was not negative before the
  subtraction. Otherwise the chunk is added to the local budget and the loop repeats.
  When the local budget is not negative, the block is processed by the shard. Over the
  whole loop no group map changes, and the shard processes the block only with a local
  budget that is not negative.
\<close>

theorem writeBlock_budget_protocol:
  assumes rows: "rowsLen br \<noteq> 0" and w: "workerID < length (shards psp)"
  shows
    "(stateSizeBudget (shards psp ! workerID) <s 0 \<and>
      psp_stateSizeBudget psp - stateSizeBudgetChunk <s 0 \<longrightarrow>
        psp_writeBlock H psp workerID br =
          Inr (psp\<lparr>psp_stateSizeBudget := psp_stateSizeBudget psp - stateSizeBudgetChunk,
                   cancelCalls := (if 0 \<le>s psp_stateSizeBudget psp
                                   then Suc (cancelCalls psp) else cancelCalls psp)\<rparr>)) \<and>
     (stateSizeBudget (shards psp ! workerID) <s 0 \<and>
      \<not> psp_stateSizeBudget psp - stateSizeBudgetChunk <s 0 \<longrightarrow>
        psp_writeBlock H psp workerID br =
          psp_writeBlock H
            (psp\<lparr>psp_stateSizeBudget := psp_stateSizeBudget psp - stateSizeBudgetChunk,
                  shards := (shards psp)
                    [workerID := (shards psp ! workerID)
                       \<lparr>stateSizeBudget := stateSizeBudget (shards psp ! workerID) + stateSizeBudgetChunk\<rparr>]\<rparr>)
            workerID br) \<and>
     (\<not> stateSizeBudget (shards psp ! workerID) <s 0 \<longrightarrow>
        psp_writeBlock H psp workerID br =
          bindE (shard_writeBlock H (psp_ps psp) (shards psp ! workerID) br)
            (\<lambda>shard'. Inr (psp\<lparr>shards := (shards psp)[workerID := shard']\<rparr>))) \<and>
     (\<exists>psp1 proceed.
        stealBudget_loop psp workerID = (psp1, proceed) \<and>
        map shard_m (shards psp1) = map shard_m (shards psp) \<and>
        (if proceed
         then 0 \<le>s stateSizeBudget (shards psp1 ! workerID) \<and>
              psp_writeBlock H psp workerID br =
                bindE (shard_writeBlock H (psp_ps psp) (shards psp1 ! workerID) br)
                  (\<lambda>shard'. Inr (psp1\<lparr>shards := (shards psp1)[workerID := shard']\<rparr>))
         else psp_writeBlock H psp workerID br = Inr psp1))"
proof (intro conjI impI)
  assume a: "stateSizeBudget (shards psp ! workerID) <s 0 \<and>
             psp_stateSizeBudget psp - stateSizeBudgetChunk <s 0"
  show "psp_writeBlock H psp workerID br =
          Inr (psp\<lparr>psp_stateSizeBudget := psp_stateSizeBudget psp - stateSizeBudgetChunk,
                   cancelCalls := (if 0 \<le>s psp_stateSizeBudget psp
                                   then Suc (cancelCalls psp) else cancelCalls psp)\<rparr>)"
    using a rows w
    by (simp add: psp_writeBlock_def stealBudget_loop.simps [of psp workerID] Let_def)
next
  assume a: "stateSizeBudget (shards psp ! workerID) <s 0 \<and>
             \<not> psp_stateSizeBudget psp - stateSizeBudgetChunk <s 0"
  show "psp_writeBlock H psp workerID br =
          psp_writeBlock H
            (psp\<lparr>psp_stateSizeBudget := psp_stateSizeBudget psp - stateSizeBudgetChunk,
                  shards := (shards psp)
                    [workerID := (shards psp ! workerID)
                       \<lparr>stateSizeBudget := stateSizeBudget (shards psp ! workerID) + stateSizeBudgetChunk\<rparr>]\<rparr>)
            workerID br"
    using a rows w
    by (simp add: psp_writeBlock_def stealBudget_loop.simps [of psp workerID] Let_def)
next
  assume a: "\<not> stateSizeBudget (shards psp ! workerID) <s 0"
  show "psp_writeBlock H psp workerID br =
          bindE (shard_writeBlock H (psp_ps psp) (shards psp ! workerID) br)
            (\<lambda>shard'. Inr (psp\<lparr>shards := (shards psp)[workerID := shard']\<rparr>))"
    using a rows w
    by (simp add: psp_writeBlock_def stealBudget_loop.simps [of psp workerID])
next
  obtain psp1 proceed where l: "stealBudget_loop psp workerID = (psp1, proceed)"
    by (cases "stealBudget_loop psp workerID") auto
  have fr: "map shard_m (shards psp1) = map shard_m (shards psp) \<and> psp_ps psp1 = psp_ps psp"
    using stealBudget_loop_frame [OF l] by simp
  have "if proceed
        then 0 \<le>s stateSizeBudget (shards psp1 ! workerID) \<and>
             psp_writeBlock H psp workerID br =
               bindE (shard_writeBlock H (psp_ps psp) (shards psp1 ! workerID) br)
                 (\<lambda>shard'. Inr (psp1\<lparr>shards := (shards psp1)[workerID := shard']\<rparr>))
        else psp_writeBlock H psp workerID br = Inr psp1"
  proof (cases proceed)
    case True
    with l have "stealBudget_loop psp workerID = (psp1, True)"
      by simp
    then have "0 \<le>s stateSizeBudget (shards psp1 ! workerID)"
      using w by (rule stealBudget_loop_proceed)
    with True l rows w fr show ?thesis
      by (simp add: psp_writeBlock_def)
  next
    case False
    with l rows w show ?thesis
      by (simp add: psp_writeBlock_def)
  qed
  with l fr show "\<exists>psp1 proceed.
        stealBudget_loop psp workerID = (psp1, proceed) \<and>
        map shard_m (shards psp1) = map shard_m (shards psp) \<and>
        (if proceed
         then 0 \<le>s stateSizeBudget (shards psp1 ! workerID) \<and>
              psp_writeBlock H psp workerID br =
                bindE (shard_writeBlock H (psp_ps psp) (shards psp1 ! workerID) br)
                  (\<lambda>shard'. Inr (psp1\<lparr>shards := (shards psp1)[workerID := shard']\<rparr>))
         else psp_writeBlock H psp workerID br = Inr psp1)"
    by blast
qed

theorem writeBlock_budget_protocol_witness:
  "rowsLen sampleBlock \<noteq> 0 \<and>
   (0 :: nat) < length (shards (sampleProcessor pipeCount (- 5) 1000)) \<and>
   stateSizeBudget (shards (sampleProcessor pipeCount (- 5) 1000) ! 0) <s 0 \<and>
   psp_stateSizeBudget (sampleProcessor pipeCount (- 5) 1000) - stateSizeBudgetChunk <s 0 \<and>
   psp_writeBlock sampleHelpers (sampleProcessor pipeCount (- 5) 1000) 0 sampleBlock =
     Inr ((sampleProcessor pipeCount (- 5) 1000)
            \<lparr>psp_stateSizeBudget := 1000 - stateSizeBudgetChunk, cancelCalls := 1\<rparr>)"
proof -
  have h1: "rowsLen sampleBlock \<noteq> 0"
    by (simp add: sampleBlock_def)
  have h2: "(0 :: nat) < length (shards (sampleProcessor pipeCount (- 5) 1000))"
    by (simp add: sampleProcessor_def)
  have h3: "stateSizeBudget (shards (sampleProcessor pipeCount (- 5) 1000) ! 0) <s 0"
    by (simp add: sampleProcessor_def emptyShard_def word_sless_alt)
  have h4: "psp_stateSizeBudget (sampleProcessor pipeCount (- 5) 1000) - stateSizeBudgetChunk <s 0"
    by (simp add: sampleProcessor_def stateSizeBudgetChunk_def word_sless_alt)
  have h5: "(0 :: int64) \<le>s psp_stateSizeBudget (sampleProcessor pipeCount (- 5) 1000)"
    by (simp add: sampleProcessor_def word_sle_eq)
  have "psp_writeBlock sampleHelpers (sampleProcessor pipeCount (- 5) 1000) 0 sampleBlock =
     Inr ((sampleProcessor pipeCount (- 5) 1000)
            \<lparr>psp_stateSizeBudget := psp_stateSizeBudget (sampleProcessor pipeCount (- 5) 1000) - stateSizeBudgetChunk,
             cancelCalls := (if 0 \<le>s psp_stateSizeBudget (sampleProcessor pipeCount (- 5) 1000)
                                   then Suc (cancelCalls (sampleProcessor pipeCount (- 5) 1000)) else cancelCalls (sampleProcessor pipeCount (- 5) 1000))\<rparr>)"
    using writeBlock_budget_protocol [OF h1 h2, of sampleHelpers, THEN conjunct1] h3 h4 by blast
  then show ?thesis
    using h1 h2 h3 h4 h5 by (simp add: sampleProcessor_def)
qed

section \<open>The per-function filters\<close>











section \<open>The budget error of flush\<close>

text \<open>
  C3. If the global budget is not positive when \<^verbatim>\<open>flush\<close> is called, for a pipe with
  at least one function (every parsed pipe has one; \<^verbatim>\<open>String\<close> panics otherwise):
  \<^verbatim>\<open>flush\<close> returns an error, the message of the error contains the string form of the
  pipe and the decimal form of \<^verbatim>\<open>maxStateSize/(1<<20)\<close> followed by \<^verbatim>\<open>MB\<close>, and
  the blocks written to the next pipe are those written before the call.
\<close>

theorem flush_budget_error:
  assumes b: "psp_stateSizeBudget psp \<le>s 0" and f: "funcs (psp_ps psp) \<noteq> []"
  shows "\<exists>s msg.
           pipeStats_String H (psp_ps psp) = Inr s \<and>
           psp_flush H psp = (psp, Some (Err msg)) \<and>
           sublist s msg \<and>
           sublist (formatInt (sint (maxStateSize psp) sdiv 2 ^ 20) @ ''MB'') msg \<and>
           ppNext (fst (psp_flush H psp)) = ppNext psp"
proof -
  from f obtain s where s: "pipeStats_String H (psp_ps psp) = Inr s"
    by (simp add: pipeStats_String_def Let_def)
  let ?n = "formatInt (sint (maxStateSize psp) sdiv 2 ^ 20)"
  let ?msg = "''cannot calculate ['' @ s @ ''], since it requires more than '' @ ?n @ ''MB of memory''"
  have e: "psp_flush H psp = (psp, Some (Err ?msg))"
    using b s by (simp add: psp_flush_def budgetError_def)
  have s1: "sublist s ?msg"
    by (rule sublist_appendI)
  have "?msg = (''cannot calculate ['' @ s @ ''], since it requires more than '') @ (?n @ ''MB'') @ '' of memory''"
    by simp
  then have s2: "sublist (?n @ ''MB'') ?msg"
    unfolding sublist_def by blast
  show ?thesis
    using s e s1 s2 by (intro exI [of _ s] exI [of _ ?msg]) simp
qed

theorem flush_budget_error_witness:
  "psp_stateSizeBudget (sampleProcessor pipeCountBy (- 5) 0) \<le>s 0 \<and>
   funcs (psp_ps (sampleProcessor pipeCountBy (- 5) 0)) \<noteq> [] \<and>
   psp_flush sampleHelpers (sampleProcessor pipeCountBy (- 5) 0) =
     (sampleProcessor pipeCountBy (- 5) 0,
      Some (Err ''cannot calculate [stats by (x) count(*) as n], since it requires more than 100MB of memory''))"
proof -
  have h1: "psp_stateSizeBudget (sampleProcessor pipeCountBy (- 5) 0) \<le>s 0"
    by (simp add: sampleProcessor_def word_sle_eq)
  have h2: "funcs (psp_ps (sampleProcessor pipeCountBy (- 5) 0)) \<noteq> []"
    by (simp add: sampleProcessor_def pipeCountBy_def)
  have s: "pipeStats_String sampleHelpers (psp_ps (sampleProcessor pipeCountBy (- 5) 0)) =
             Inr ''stats by (x) count(*) as n''"
    by (simp add: pipeStats_String_def sampleProcessor_def pipeCountBy_def byStatsField_String_def
        pipeStatsFunc_line_def sampleHelpers_def byX_def countFunc_def statsCount_def)
  have n: "formatInt (sint (maxStateSize (sampleProcessor pipeCountBy (- 5) 0)) sdiv 2 ^ 20) = ''100''"
    by (simp add: sampleProcessor_def signed_divide_int_def formatInt_def showNat.simps digitChar_def)
  from flush_budget_error [OF h1 h2, of sampleHelpers] obtain msg where
    "psp_flush sampleHelpers (sampleProcessor pipeCountBy (- 5) 0) =
       (sampleProcessor pipeCountBy (- 5) 0, Some (Err msg))"
    by blast
  moreover have "psp_flush sampleHelpers (sampleProcessor pipeCountBy (- 5) 0) =
     (sampleProcessor pipeCountBy (- 5) 0,
      Some (Err ''cannot calculate [stats by (x) count(*) as n], since it requires more than 100MB of memory''))"
    using h1 s n by (simp add: psp_flush_def budgetError_def)
  ultimately show ?thesis
    using h1 h2 by simp
qed

section \<open>The rows a writer produces\<close>

lemma fold_appendResultColumnWithName:
  "fold (\<lambda>x acc. appendResultColumnWithName acc (g x)) xs acc0 =
     acc0 @ map (\<lambda>x. \<lparr>rc_name = g x, rc_values = []\<rparr>) xs"
  by (induction xs arbitrary: acc0) (simp_all add: appendResultColumnWithName_def)

lemma rcs_newPipeStatsWriter:
  "rcs (newPipeStatsWriter ps w) = map (\<lambda>n. \<lparr>rc_name = n, rc_values = []\<rparr>) (columnNames ps)"
  by (simp add: newPipeStatsWriter_def fold_appendResultColumnWithName columnNames_def Let_def comp_def)

lemma writer_inv_new: "writer_inv (columnNames ps) (newPipeStatsWriter ps w)"
  by (simp add: writer_inv_def rcs_newPipeStatsWriter comp_def list_all_iff)
     (simp add: newPipeStatsWriter_def Let_def)

lemma writerRows_new: "writerRows (newPipeStatsWriter ps w) = []"
  by (simp add: writerRows_def pendingRows_def newPipeStatsWriter_def Let_def)

lemma writerRows_values [simp]: "writerRows (psw\<lparr>psw_values := vs\<rparr>) = writerRows psw"
  by (simp add: writerRows_def pendingRows_def)

lemma writerChunks_values [simp]: "writerChunks (psw\<lparr>psw_values := vs\<rparr>) rest = writerChunks psw rest"
  by (simp add: writerChunks_def pendingRows_def)

lemma writer_inv_values [simp]: "writer_inv N (psw\<lparr>psw_values := vs\<rparr>) = writer_inv N psw"
  by (simp add: writer_inv_def)

lemma pendingRows_addValue:
  assumes cols: "list_all (\<lambda>rc. length (rc_values rc) = n) cols" and len: "length vals = length cols"
  shows "map (\<lambda>r. map (\<lambda>rc. rc_values rc ! r) (map (\<lambda>(rc, v). addValue rc v) (zip cols vals))) [0..<Suc n] =
         map (\<lambda>r. map (\<lambda>rc. rc_values rc ! r) cols) [0..<n] @ [vals]"
proof -
  have old: "map (\<lambda>rc. rc_values rc ! r) (map (\<lambda>(rc, v). addValue rc v) (zip cols vals)) =
             map (\<lambda>rc. rc_values rc ! r) cols" if "r < n" for r
  proof (rule nth_equalityI)
    show "length (map (\<lambda>rc. rc_values rc ! r) (map (\<lambda>(rc, v). addValue rc v) (zip cols vals))) =
          length (map (\<lambda>rc. rc_values rc ! r) cols)"
      using len by simp
  next
    fix i
    assume "i < length (map (\<lambda>rc. rc_values rc ! r) (map (\<lambda>(rc, v). addValue rc v) (zip cols vals)))"
    then have i: "i < length cols"
      using len by simp
    then have "length (rc_values (cols ! i)) = n"
      using cols by (simp add: list_all_length)
    then show "map (\<lambda>rc. rc_values rc ! r) (map (\<lambda>(rc, v). addValue rc v) (zip cols vals)) ! i =
               map (\<lambda>rc. rc_values rc ! r) cols ! i"
      using i len that by (simp add: addValue_def nth_append)
  qed
  have new: "map (\<lambda>rc. rc_values rc ! n) (map (\<lambda>(rc, v). addValue rc v) (zip cols vals)) = vals"
  proof (rule nth_equalityI)
    show "length (map (\<lambda>rc. rc_values rc ! n) (map (\<lambda>(rc, v). addValue rc v) (zip cols vals))) = length vals"
      using len by simp
  next
    fix i
    assume "i < length (map (\<lambda>rc. rc_values rc ! n) (map (\<lambda>(rc, v). addValue rc v) (zip cols vals)))"
    then have i: "i < length cols"
      using len by simp
    then have "length (rc_values (cols ! i)) = n"
      using cols by (simp add: list_all_length)
    then show "map (\<lambda>rc. rc_values rc ! n) (map (\<lambda>(rc, v). addValue rc v) (zip cols vals)) ! i = vals ! i"
      using i len by (simp add: addValue_def nth_append)
  qed
  show ?thesis
    using old new by simp
qed

lemma names_addValue:
  "length vals = length cols \<Longrightarrow>
     map rc_name (map (\<lambda>(rc, v). addValue rc v) (zip cols vals)) = map rc_name cols"
  by (rule nth_equalityI) (simp_all add: addValue_def)

lemma lengths_addValue:
  "list_all (\<lambda>rc. length (rc_values rc) = n) cols \<Longrightarrow> length vals = length cols \<Longrightarrow>
     list_all (\<lambda>rc. length (rc_values rc) = Suc n) (map (\<lambda>(rc, v). addValue rc v) (zip cols vals))"
  by (simp add: list_all_length addValue_def)

text \<open>What one call of writePipeStatsGroup does to the rows and the blocks of a writer.\<close>


lemma upt_0_Suc_shift: "[0..<Suc n] = 0 # map Suc [0..<n]"
  by (simp add: upt_conv_Cons map_Suc_upt del: upt_Suc)

lemma finalizeAll_eq:
  "finalizeAll ch t sps =
     (map (\<lambda>i. finalizeStats (sps ! i) (sp_state (sps ! i)) (needStop ch (t + i))) [0..<length sps],
      t + length sps)"
proof (induction sps arbitrary: t)
  case Nil
  then show ?case by simp
next
  case (Cons sfp rest)
  have "[0..<length (sfp # rest)] = 0 # map Suc [0..<length rest]"
    using upt_0_Suc_shift [of "length rest"] by simp
  then show ?case
    using Cons.IH [of "Suc t"] by (simp add: comp_def del: upt_Suc)
qed

lemma finalizeAll_finalValuesAt:
  "finalizeAll ch t (sfps psg) = (finalValuesAt ch t psg, t + length (sfps psg))"
  by (simp add: finalizeAll_eq finalValuesAt_def)

lemma length_finalValuesAt [simp]: "length (finalValuesAt ch t psg) = length (sfps psg)"
  by (simp add: finalValuesAt_def)

lemma length_finalValues [simp]: "length (finalValues psg) = length (sfps psg)"
  by (simp add: finalValues_def)

lemma finalValuesAt_None [simp]: "finalValuesAt None t psg = finalValues psg"
  unfolding finalValuesAt_def finalValues_def
  by (rule nth_equalityI) simp_all

text \<open>What one call of writePipeStatsGroup does to the blocks and the buffer of a writer.\<close>

lemma writePipeStatsGroup_step:
  assumes inv: "writer_inv N psw" and ok: "writePipeStatsGroup ch t psw psg = Inr (psw', t')"
  shows "writer_inv N psw' \<and>
         t' = t + length (sfps psg) \<and>
         writerChunks psw ((psw_values psw @ finalValuesAt ch t psg) # rest) = writerChunks psw' rest \<and>
         length (psw_values psw @ finalValuesAt ch t psg) = length N \<and>
         psw_workerID psw' = psw_workerID psw"
proof -
  let ?vals = "psw_values psw @ finalValuesAt ch t psg"
  from ok have len: "length ?vals = length (rcs psw)"
    by (auto simp add: writePipeStatsGroup_def finalizeAll_finalValuesAt Let_def split: if_splits)
  let ?psw1 = "psw\<lparr>psw_values := ?vals,
                    rcs := map (\<lambda>(rc, v). addValue rc v) (zip (rcs psw) ?vals),
                    resultLen := resultLen psw + sum_list (map length ?vals),
                    rowsCount := rowsCount psw + 1\<rparr>"
  from inv have nm: "map rc_name (rcs psw) = N"
    and cl: "list_all (\<lambda>rc. length (rc_values rc) = rowsCount psw) (rcs psw)"
    and wr: "list_all (\<lambda>b. map rc_name (wb_rcs b) = N \<and> 1 \<le> wb_rowsLen b \<and>
                           list_all (\<lambda>rc. length (rc_values rc) = wb_rowsLen b) (wb_rcs b) \<and>
                           wb_workerID b = psw_workerID psw) (written psw)"
    by (simp_all add: writer_inv_def)
  have inv1: "writer_inv N ?psw1"
    using nm wr names_addValue [OF len] lengths_addValue [OF cl len]
    by (simp add: writer_inv_def)
  have pend1: "pendingRows ?psw1 = pendingRows psw @ [?vals]"
    using pendingRows_addValue [OF cl len]
    by (simp add: pendingRows_def)
  have lenN: "length ?vals = length N"
    using len nm by (metis length_map)
  have t': "t' = t + length (sfps psg)"
    using ok len
    by (auto simp add: writePipeStatsGroup_def finalizeAll_finalValuesAt Let_def split: if_splits)
  show ?thesis
  proof (cases "resultLen ?psw1 \<ge> 64000")
    case False
    with ok len have e: "psw' = ?psw1"
      by (simp add: writePipeStatsGroup_def finalizeAll_finalValuesAt Let_def)
    have "writerChunks psw (?vals # rest) = writerChunks ?psw1 rest"
      using False pend1 by (simp add: writerChunks_def)
    with inv1 lenN t' e show ?thesis by simp
  next
    case True
    with ok len have e: "psw' = psw_flush ?psw1"
      by (simp add: writePipeStatsGroup_def finalizeAll_finalValuesAt Let_def)
    have "writer_inv N (psw_flush ?psw1)"
      using inv1 by (simp add: writer_inv_def psw_flush_def resetValues_def list_all_iff comp_def)
    moreover have "writerChunks psw (?vals # rest) = writerChunks (psw_flush ?psw1) rest"
      using True pend1
      by (simp add: writerChunks_def psw_flush_def blockRows_def pendingRows_def)
    ultimately show ?thesis
      using e lenN t' by (simp add: psw_flush_def)
  qed
qed

lemma writePipeStatsGroup_ok:
  assumes inv: "writer_inv N psw" and len: "length (psw_values psw) + length (sfps psg) = length N"
  shows "\<exists>psw'. writePipeStatsGroup ch t psw psg = Inr (psw', t + length (sfps psg))"
proof -
  from inv have "length (rcs psw) = length N"
    by (metis writer_inv_def length_map)
  with len show ?thesis
    by (simp add: writePipeStatsGroup_def finalizeAll_finalValuesAt Let_def)
qed

lemma writeEntries_rows:
  assumes "writer_inv N psw" and "writeEntries ch keyValues t entries psw = Inr (psw', stopped, t')"
  shows "writer_inv N psw' \<and> psw_workerID psw' = psw_workerID psw \<and>
         (\<exists>rows. entriesRows ch keyValues t entries = (rows, stopped, t') \<and>
                 list_all (\<lambda>row. length row = length N) rows \<and>
                 (\<forall>rest. writerChunks psw (rows @ rest) = writerChunks psw' rest))"
  using assms
proof (induction entries arbitrary: psw t)
  case Nil
  then show ?case by simp
next
  case (Cons e entries)
  obtain k psg where e: "e = (k, psg)"
    by (cases e)
  show ?case
  proof (cases "needStop ch t")
    case True
    with Cons.prems e show ?thesis by simp
  next
    case False
    from Cons.prems(2) e False obtain kv where kv: "keyValues k = Inr kv"
      by (cases "keyValues k") simp_all
    from Cons.prems(2) e False kv obtain psw1 t1 where
      w: "writePipeStatsGroup ch (Suc t) (psw\<lparr>psw_values := kv\<rparr>) psg = Inr (psw1, t1)"
      by (cases "writePipeStatsGroup ch (Suc t) (psw\<lparr>psw_values := kv\<rparr>) psg") auto
    from Cons.prems(2) e False kv w have r: "writeEntries ch keyValues t1 entries psw1 = Inr (psw', stopped, t')"
      by simp
    have inv0: "writer_inv N (psw\<lparr>psw_values := kv\<rparr>)"
      using Cons.prems(1) by simp
    have step: "writer_inv N psw1 \<and> t1 = Suc t + length (sfps psg) \<and>
                (\<forall>rest. writerChunks psw ((kv @ finalValuesAt ch (Suc t) psg) # rest) = writerChunks psw1 rest) \<and>
                length (kv @ finalValuesAt ch (Suc t) psg) = length N \<and>
                psw_workerID psw1 = psw_workerID psw"
      using writePipeStatsGroup_step [OF inv0 w] by simp
    then have inv1: "writer_inv N psw1" and t1: "t1 = Suc t + length (sfps psg)"
      by simp_all
    from Cons.IH [OF inv1 r] obtain rows where
      i1: "writer_inv N psw'" and i2: "psw_workerID psw' = psw_workerID psw1"
      and i3: "entriesRows ch keyValues t1 entries = (rows, stopped, t')"
      and i5: "list_all (\<lambda>row. length row = length N) rows"
      and i4: "\<forall>rest. writerChunks psw1 (rows @ rest) = writerChunks psw' rest"
      by blast
    have "entriesRows ch keyValues t (e # entries) =
            ((kv @ finalValuesAt ch (Suc t) psg) # rows, stopped, t')"
      using e False kv i3 t1 by (simp add: keyValuesOf_def)
    moreover have "\<forall>rest. writerChunks psw (((kv @ finalValuesAt ch (Suc t) psg) # rows) @ rest) =
                          writerChunks psw' rest"
      using step i4 by simp
    moreover have "psw_workerID psw' = psw_workerID psw"
      using i2 step by simp
    moreover have "list_all (\<lambda>row. length row = length N) ((kv @ finalValuesAt ch (Suc t) psg) # rows)"
      using step i5 by simp
    ultimately show ?thesis
      using i1 by (intro conjI exI [of _ "(kv @ finalValuesAt ch (Suc t) psg) # rows"]) simp_all
  qed
qed

lemma entriesRows_None:
  "entriesRows None keyValues t entries =
     (map (entryRow keyValues) entries, False, t + length entries + sum_list (map (\<lambda>e. length (sfps (snd e))) entries))"
  by (induction entries arbitrary: t) (auto simp add: entryRow_def)

lemma writeEntries_writable:
  assumes "writer_inv N psw" and "writeEntries None keyValues t entries psw = Inr (psw', stopped, t')"
  shows "list_all (entryWritable keyValues (length N)) entries"
  using assms
proof (induction entries arbitrary: psw t)
  case Nil
  then show ?case by simp
next
  case (Cons e entries)
  obtain k psg where e: "e = (k, psg)"
    by (cases e)
  from Cons.prems(2) e obtain kv where kv: "keyValues k = Inr kv"
    by (cases "keyValues k") simp_all
  from Cons.prems(2) e kv obtain psw1 t1 where
    w: "writePipeStatsGroup None (Suc t) (psw\<lparr>psw_values := kv\<rparr>) psg = Inr (psw1, t1)"
    by (cases "writePipeStatsGroup None (Suc t) (psw\<lparr>psw_values := kv\<rparr>) psg") auto
  from Cons.prems(2) e kv w have r: "writeEntries None keyValues t1 entries psw1 = Inr (psw', stopped, t')"
    by simp
  have inv0: "writer_inv N (psw\<lparr>psw_values := kv\<rparr>)"
    using Cons.prems(1) by simp
  from writePipeStatsGroup_step [OF inv0 w, of "[]"]
  have inv1: "writer_inv N psw1" and len: "length kv + length (sfps psg) = length N"
    by simp_all
  have "entryWritable keyValues (length N) e"
    using e kv len by (simp add: entryWritable_def)
  with Cons.IH [OF inv1 r] show ?case
    by simp
qed

lemma writeEntries_ok:
  assumes "writer_inv N psw" and "list_all (entryWritable keyValues (length N)) entries"
  shows "\<exists>psw' t'. writeEntries None keyValues t entries psw = Inr (psw', False, t')"
  using assms
proof (induction entries arbitrary: psw t)
  case Nil
  then show ?case by simp
next
  case (Cons e rest)
  obtain k psg where e: "e = (k, psg)"
    by (cases e)
  from Cons.prems(2) e obtain kv where kv: "keyValues k = Inr kv"
    and len: "length kv + length (sfps psg) = length N"
    by (cases "keyValues k") (simp_all add: entryWritable_def)
  have inv0: "writer_inv N (psw\<lparr>psw_values := kv\<rparr>)"
    using Cons.prems(1) by simp
  from writePipeStatsGroup_ok [OF inv0, of psg None "Suc t"] len obtain psw1 where
    w: "writePipeStatsGroup None (Suc t) (psw\<lparr>psw_values := kv\<rparr>) psg = Inr (psw1, Suc t + length (sfps psg))"
    by auto
  from writePipeStatsGroup_step [OF inv0 w, of "[]"] have inv1: "writer_inv N psw1"
    by simp
  from Cons.IH [OF inv1, of "Suc t + length (sfps psg)"] Cons.prems(2) obtain psw' t' where
    "writeEntries None keyValues (Suc t + length (sfps psg)) rest psw1 = Inr (psw', False, t')"
    by auto
  then show ?case
    using e kv w by simp
qed

lemma writeShardData_rows:
  assumes inv: "writer_inv (columnNames ps) psw"
    and ok: "writeShardData H ch t ps psw psm = Inr (psw', t')"
  shows "writer_inv (columnNames ps) psw' \<and> psw_workerID psw' = psw_workerID psw \<and>
         (\<exists>rows. mapRowsAt H ch t ps psm = (rows, t') \<and>
                 list_all (\<lambda>row. length row = length (columnNames ps)) rows \<and>
                 (\<forall>rest. writerChunks psw (rows @ rest) = writerChunks psw' rest))"
proof (cases "length (byFields ps) = 1")
  case True
  from ok True obtain psw1 s1 t1 where
    e1: "writeEntries ch (\<lambda>n. Inr [marshalUint64String H n]) t (u64 psm) psw = Inr (psw1, s1, t1)"
    by (cases "writeEntries ch (\<lambda>n. Inr [marshalUint64String H n]) t (u64 psm) psw")
       (auto simp add: writeShardData_def)
  from writeEntries_rows [OF inv e1] obtain r1 where
    inv1: "writer_inv (columnNames ps) psw1" and id1: "psw_workerID psw1 = psw_workerID psw"
    and x1: "entriesRows ch (\<lambda>n. Inr [marshalUint64String H n]) t (u64 psm) = (r1, s1, t1)"
    and n1: "list_all (\<lambda>row. length row = length (columnNames ps)) r1"
    and c1: "\<forall>rest. writerChunks psw (r1 @ rest) = writerChunks psw1 rest"
    by blast
  show ?thesis
  proof (cases s1)
    case True
    with ok \<open>length (byFields ps) = 1\<close> e1 have "psw' = psw1" "t' = t1"
      by (simp_all add: writeShardData_def)
    with inv1 id1 x1 c1 n1 True \<open>length (byFields ps) = 1\<close> show ?thesis
      by (simp add: mapRowsAt_def)
  next
    case False
    note ns1 = False
    from ok True e1 ns1 obtain psw2 s2 t2 where
      e2: "writeEntries ch (\<lambda>n. Inr [marshalInt64String H n]) t1 (negative64 psm) psw1 = Inr (psw2, s2, t2)"
      by (cases "writeEntries ch (\<lambda>n. Inr [marshalInt64String H n]) t1 (negative64 psm) psw1")
         (auto simp add: writeShardData_def)
    from writeEntries_rows [OF inv1 e2] obtain r2 where
      inv2: "writer_inv (columnNames ps) psw2" and id2: "psw_workerID psw2 = psw_workerID psw1"
      and x2: "entriesRows ch (\<lambda>n. Inr [marshalInt64String H n]) t1 (negative64 psm) = (r2, s2, t2)"
    and n2: "list_all (\<lambda>row. length row = length (columnNames ps)) r2"
      and c2: "\<forall>rest. writerChunks psw1 (r2 @ rest) = writerChunks psw2 rest"
      by blast
    show ?thesis
    proof (cases s2)
      case True
      with ok \<open>length (byFields ps) = 1\<close> e1 ns1 e2 have "psw' = psw2" "t' = t2"
        by (simp_all add: writeShardData_def)
      moreover have "\<forall>rest. writerChunks psw ((r1 @ r2) @ rest) = writerChunks psw2 rest"
        using c1 c2 by simp
      ultimately show ?thesis
        using inv2 id1 id2 x1 x2 n1 n2 ns1 True \<open>length (byFields ps) = 1\<close>
        by (simp add: mapRowsAt_def)
    next
      case False
      note ns2 = False
      from ok True e1 ns1 e2 ns2 obtain psw3 s3 t3 where
        e3: "writeEntries ch (\<lambda>key. Inr [key]) t2 (strings psm) psw2 = Inr (psw3, s3, t3)"
        by (cases "writeEntries ch (\<lambda>key. Inr [key]) t2 (strings psm) psw2")
           (auto simp add: writeShardData_def)
      from writeEntries_rows [OF inv2 e3] obtain r3 where
        inv3: "writer_inv (columnNames ps) psw3" and id3: "psw_workerID psw3 = psw_workerID psw2"
        and x3: "entriesRows ch (\<lambda>key. Inr [key]) t2 (strings psm) = (r3, s3, t3)"
    and n3: "list_all (\<lambda>row. length row = length (columnNames ps)) r3"
        and c3: "\<forall>rest. writerChunks psw2 (r3 @ rest) = writerChunks psw3 rest"
        by blast
      from ok True e1 ns1 e2 ns2 e3 have "psw' = psw3" "t' = t3"
        by (simp_all add: writeShardData_def)
      moreover have "\<forall>rest. writerChunks psw ((r1 @ r2 @ r3) @ rest) = writerChunks psw3 rest"
        using c1 c2 c3 by simp
      ultimately show ?thesis
        using inv3 id1 id2 id3 x1 x2 x3 n1 n2 n3 ns1 ns2 \<open>length (byFields ps) = 1\<close>
        by (simp add: mapRowsAt_def)
    qed
  qed
next
  case False
  from ok False obtain s1 where
    e1: "writeEntries ch (keyValuesMulti H ps) t (strings psm) psw = Inr (psw', s1, t')"
    by (cases "writeEntries ch (keyValuesMulti H ps) t (strings psm) psw")
       (auto simp add: writeShardData_def)
  from writeEntries_rows [OF inv e1] False show ?thesis
    by (auto simp add: mapRowsAt_def)
qed

lemma mapRowsAt_None: "fst (mapRowsAt H None t ps psm) = mapRows H ps psm"
  by (simp add: mapRowsAt_def mapRows_def entriesRows_None)

lemma writeShardData_writable:
  assumes inv: "writer_inv (columnNames ps) psw"
    and ok: "writeShardData H None t ps psw psm = Inr (psw', t')"
  shows "mapWritable H ps psm"
proof (cases "length (byFields ps) = 1")
  case True
  from ok True obtain psw1 s1 t1 where
    e1: "writeEntries None (\<lambda>n. Inr [marshalUint64String H n]) t (u64 psm) psw = Inr (psw1, s1, t1)"
    by (cases "writeEntries None (\<lambda>n. Inr [marshalUint64String H n]) t (u64 psm) psw")
       (auto simp add: writeShardData_def)
  from writeEntries_rows [OF inv e1] have inv1: "writer_inv (columnNames ps) psw1"
    and ns1: "\<not> s1"
    by (auto simp add: entriesRows_None)
  from ok True e1 ns1 obtain psw2 s2 t2 where
    e2: "writeEntries None (\<lambda>n. Inr [marshalInt64String H n]) t1 (negative64 psm) psw1 = Inr (psw2, s2, t2)"
    by (cases "writeEntries None (\<lambda>n. Inr [marshalInt64String H n]) t1 (negative64 psm) psw1")
       (auto simp add: writeShardData_def)
  from writeEntries_rows [OF inv1 e2] have inv2: "writer_inv (columnNames ps) psw2"
    and ns2: "\<not> s2"
    by (auto simp add: entriesRows_None)
  from ok True e1 ns1 e2 ns2 obtain psw3 s3 t3 where
    e3: "writeEntries None (\<lambda>key. Inr [key]) t2 (strings psm) psw2 = Inr (psw3, s3, t3)"
    by (cases "writeEntries None (\<lambda>key. Inr [key]) t2 (strings psm) psw2")
       (auto simp add: writeShardData_def)
  show ?thesis
    using writeEntries_writable [OF inv e1] writeEntries_writable [OF inv1 e2]
      writeEntries_writable [OF inv2 e3] True
    by (simp add: mapWritable_def)
next
  case False
  from ok False obtain s1 where
    e1: "writeEntries None (keyValuesMulti H ps) t (strings psm) psw = Inr (psw', s1, t')"
    by (cases "writeEntries None (keyValuesMulti H ps) t (strings psm) psw")
       (auto simp add: writeShardData_def)
  from writeEntries_writable [OF inv e1] False show ?thesis
    by (simp add: mapWritable_def)
qed

lemma writeShardData_ok:
  assumes inv: "writer_inv (columnNames ps) psw" and wr: "mapWritable H ps psm"
  shows "\<exists>psw' t'. writeShardData H None t ps psw psm = Inr (psw', t')"
proof (cases "length (byFields ps) = 1")
  case True
  from wr True have
    a1: "list_all (entryWritable (\<lambda>n. Inr [marshalUint64String H n]) (length (columnNames ps))) (u64 psm)"
    and a2: "list_all (entryWritable (\<lambda>n. Inr [marshalInt64String H n]) (length (columnNames ps))) (negative64 psm)"
    and a3: "list_all (entryWritable (\<lambda>key. Inr [key]) (length (columnNames ps))) (strings psm)"
    by (simp_all add: mapWritable_def)
  from writeEntries_ok [OF inv a1] obtain psw1 t1 where
    e1: "writeEntries None (\<lambda>n. Inr [marshalUint64String H n]) t (u64 psm) psw = Inr (psw1, False, t1)"
    by blast
  from writeEntries_rows [OF inv e1] have inv1: "writer_inv (columnNames ps) psw1"
    by simp
  from writeEntries_ok [OF inv1 a2] obtain psw2 t2 where
    e2: "writeEntries None (\<lambda>n. Inr [marshalInt64String H n]) t1 (negative64 psm) psw1 = Inr (psw2, False, t2)"
    by blast
  from writeEntries_rows [OF inv1 e2] have inv2: "writer_inv (columnNames ps) psw2"
    by simp
  from writeEntries_ok [OF inv2 a3] obtain psw3 t3 where
    e3: "writeEntries None (\<lambda>key. Inr [key]) t2 (strings psm) psw2 = Inr (psw3, False, t3)"
    by blast
  show ?thesis
    using True e1 e2 e3 by (simp add: writeShardData_def)
next
  case False
  from wr False have
    a: "list_all (entryWritable (keyValuesMulti H ps) (length (columnNames ps))) (strings psm)"
    by (simp add: mapWritable_def)
  from writeEntries_ok [OF inv a] obtain psw1 t1 where
    "writeEntries None (keyValuesMulti H ps) t (strings psm) psw = Inr (psw1, False, t1)"
    by blast
  then show ?thesis
    using False by (simp add: writeShardData_def)
qed

lemma writerChunks_new: "writerChunks (newPipeStatsWriter ps w) rows = chunkRows 0 [] rows"
  by (simp add: writerChunks_def pendingRows_def newPipeStatsWriter_def Let_def)

text \<open>The blocks of one writer: the rows of its map, in blocks.\<close>

lemma writeMap_rows:
  assumes ok: "writeMap H ch t ps w psm = Inr (blocks, t')"
  shows "\<exists>rows. mapRowsAt H ch t ps psm = (rows, t') \<and>
           list_all (\<lambda>row. length row = length (columnNames ps)) rows \<and>
           map blockRows blocks = chunkRows 0 [] rows \<and>
           list_all (\<lambda>b. map rc_name (wb_rcs b) = columnNames ps \<and>
                           list_all (\<lambda>rc. length (rc_values rc) = wb_rowsLen b) (wb_rcs b) \<and>
                           wb_workerID b = w) blocks"
proof -
  from ok obtain psw where
    d: "writeShardData H ch t ps (newPipeStatsWriter ps w) psm = Inr (psw, t')"
    and b: "blocks = written (psw_flush psw)"
    by (cases "writeShardData H ch t ps (newPipeStatsWriter ps w) psm") (auto simp add: writeMap_def)
  from writeShardData_rows [OF writer_inv_new d] obtain rows where
    inv: "writer_inv (columnNames ps) psw"
    and wid: "psw_workerID psw = psw_workerID (newPipeStatsWriter ps w)"
    and rows: "mapRowsAt H ch t ps psm = (rows, t')"
    and rl: "list_all (\<lambda>row. length row = length (columnNames ps)) rows"
    and ch: "\<forall>rest. writerChunks (newPipeStatsWriter ps w) (rows @ rest) = writerChunks psw rest"
    by blast
  have wid': "psw_workerID psw = w"
    using wid by (simp add: newPipeStatsWriter_def Let_def)
  let ?last = "\<lparr>wb_workerID = psw_workerID psw, wb_rcs = rcs psw, wb_rowsLen = rowsCount psw\<rparr>"
  have bl: "blocks = written psw @ [?last]"
    using b by (simp add: psw_flush_def)
  from ch have "chunkRows 0 [] rows = writerChunks psw []"
    using writerChunks_new [of ps w rows] by (metis append_Nil2)
  then have "map blockRows blocks = chunkRows 0 [] rows"
    unfolding bl by (simp add: writerChunks_def pendingRows_def blockRows_def)
  moreover have "list_all (\<lambda>b. map rc_name (wb_rcs b) = columnNames ps \<and>
                           list_all (\<lambda>rc. length (rc_values rc) = wb_rowsLen b) (wb_rcs b) \<and>
                           wb_workerID b = w) blocks"
    using inv wid' unfolding bl by (simp add: writer_inv_def list_all_iff)
  ultimately show ?thesis
    using rows rl by blast
qed

lemma writeMap_writable:
  assumes "writeMap H None t ps w psm = Inr (blocks, t')"
  shows "mapWritable H ps psm"
proof -
  from assms obtain psw where
    "writeShardData H None t ps (newPipeStatsWriter ps w) psm = Inr (psw, t')"
    by (cases "writeShardData H None t ps (newPipeStatsWriter ps w) psm") (auto simp add: writeMap_def)
  then show ?thesis
    using writeShardData_writable [OF writer_inv_new] by blast
qed

lemma writeMap_ok:
  assumes "mapWritable H ps psm"
  shows "\<exists>blocks t'. writeMap H None t ps w psm = Inr (blocks, t')"
proof -
  from writeShardData_ok [OF writer_inv_new assms] obtain psw t' where
    "writeShardData H None t ps (newPipeStatsWriter ps w) psm = Inr (psw, t')"
    by blast
  then show ?thesis
    by (simp add: writeMap_def)
qed

lemma writeMaps_rows:
  assumes "writeMaps H ch t ps w psms = Inr (blocks, t')"
  shows "\<exists>bss rowss.
           blocks = concat bss \<and>
           mapsRowsAt H ch t ps psms = (rowss, t') \<and>
           list_all2 (\<lambda>rows bs. map blockRows bs = chunkRows 0 [] rows \<and>
                                 list_all (\<lambda>row. length row = length (columnNames ps)) rows \<and>
                                 list_all (\<lambda>b. map rc_name (wb_rcs b) = columnNames ps \<and>
                                   list_all (\<lambda>rc. length (rc_values rc) = wb_rowsLen b) (wb_rcs b)) bs) rowss bss \<and>
           list_all2 (\<lambda>i bs. list_all (\<lambda>b. wb_workerID b = i) bs) [w..<w + length psms] bss"
  using assms
proof (induction psms arbitrary: w t blocks)
  case Nil
  then show ?case by simp
next
  case (Cons psm rest)
  from Cons.prems obtain bs t1 where m: "writeMap H ch t ps w psm = Inr (bs, t1)"
    by (cases "writeMap H ch t ps w psm") auto
  from Cons.prems m obtain bs' where r: "writeMaps H ch t1 ps (Suc w) rest = Inr (bs', t')"
    and b: "blocks = bs @ bs'"
    by (cases "writeMaps H ch t1 ps (Suc w) rest") auto
  from Cons.IH [OF r] obtain bss rowss where
    c: "bs' = concat bss"
    and rs: "mapsRowsAt H ch t1 ps rest = (rowss, t')"
    and l: "list_all2 (\<lambda>rows bs. map blockRows bs = chunkRows 0 [] rows \<and>
                                 list_all (\<lambda>row. length row = length (columnNames ps)) rows \<and>
                                 list_all (\<lambda>b. map rc_name (wb_rcs b) = columnNames ps \<and>
                                   list_all (\<lambda>rc. length (rc_values rc) = wb_rowsLen b) (wb_rcs b)) bs) rowss bss"
    and wk: "list_all2 (\<lambda>i bs. list_all (\<lambda>b. wb_workerID b = i) bs) [Suc w..<Suc w + length rest] bss"
    by blast
  from writeMap_rows [OF m] obtain rows where
    h1: "mapRowsAt H ch t ps psm = (rows, t1)"
    and h4: "list_all (\<lambda>row. length row = length (columnNames ps)) rows"
    and h2: "map blockRows bs = chunkRows 0 [] rows"
    and h3: "list_all (\<lambda>b. map rc_name (wb_rcs b) = columnNames ps \<and>
                           list_all (\<lambda>rc. length (rc_values rc) = wb_rowsLen b) (wb_rcs b) \<and>
                           wb_workerID b = w) bs"
    by blast
  have up: "[w..<w + length (psm # rest)] = w # [Suc w..<Suc w + length rest]"
    by (simp add: upt_conv_Cons del: upt_Suc)
  have "blocks = concat (bs # bss)"
    using b c by simp
  moreover have "mapsRowsAt H ch t ps (psm # rest) = (rows # rowss, t')"
    using h1 rs by simp
  moreover have "list_all2 (\<lambda>rows bs. map blockRows bs = chunkRows 0 [] rows \<and>
                                 list_all (\<lambda>row. length row = length (columnNames ps)) rows \<and>
                                 list_all (\<lambda>b. map rc_name (wb_rcs b) = columnNames ps \<and>
                                   list_all (\<lambda>rc. length (rc_values rc) = wb_rowsLen b) (wb_rcs b)) bs)
                   (rows # rowss) (bs # bss)"
    using l h2 h3 h4 by (simp add: list_all_iff)
  moreover have "list_all2 (\<lambda>i bs. list_all (\<lambda>b. wb_workerID b = i) bs)
                   [w..<w + length (psm # rest)] (bs # bss)"
    unfolding up using wk h3 by (simp add: list_all_iff)
  ultimately show ?case
    by blast
qed

lemma writeMaps_writable:
  assumes "writeMaps H None t ps w psms = Inr (blocks, t')"
  shows "list_all (mapWritable H ps) psms"
  using assms
proof (induction psms arbitrary: w t blocks)
  case Nil
  then show ?case by simp
next
  case (Cons psm rest)
  from Cons.prems obtain bs t1 where m: "writeMap H None t ps w psm = Inr (bs, t1)"
    by (cases "writeMap H None t ps w psm") auto
  from Cons.prems m obtain bs' where r: "writeMaps H None t1 ps (Suc w) rest = Inr (bs', t')"
    by (cases "writeMaps H None t1 ps (Suc w) rest") auto
  from writeMap_writable [OF m] Cons.IH [OF r] show ?case
    by simp
qed

lemma writeMaps_ok:
  assumes "list_all (mapWritable H ps) psms"
  shows "\<exists>blocks t'. writeMaps H None t ps w psms = Inr (blocks, t')"
  using assms
proof (induction psms arbitrary: w t)
  case Nil
  then show ?case by simp
next
  case (Cons psm rest)
  from Cons.prems writeMap_ok [of H ps psm t w] obtain bs t1 where
    "writeMap H None t ps w psm = Inr (bs, t1)"
    by auto
  moreover from Cons.IH [of t1 "Suc w"] Cons.prems obtain bs' t' where
    "writeMaps H None t1 ps (Suc w) rest = Inr (bs', t')"
    by auto
  ultimately show ?case by simp
qed

lemma mapsRowsAt_None: "fst (mapsRowsAt H None t ps psms) = map (mapRows H ps) psms"
proof (induction psms arbitrary: t)
  case Nil
  then show ?case by simp
next
  case (Cons psm rest)
  show ?case
    using Cons.IH [of "snd (mapRowsAt H None t ps psm)"] mapRowsAt_None [of H t ps psm]
    by (simp add: split_beta)
qed

lemma concat_chunkRows: "concat (chunkRows len pend rows) = pend @ rows"
  by (induction rows arbitrary: len pend) simp_all

lemma chunkRows_not_Nil [simp]: "chunkRows len pend rows \<noteq> []"
  by (induction rows arbitrary: len pend) simp_all

lemma butlast_chunkRows_nonempty:
  "list_all (\<lambda>c. c \<noteq> []) (butlast (chunkRows len pend rows))"
  by (induction rows arbitrary: len pend) simp_all

lemma chunkRows_small:
  "len + sum_list (map (\<lambda>row. sum_list (map length row)) rows) < 64000 \<Longrightarrow>
     chunkRows len pend rows = [pend @ rows]"
  by (induction rows arbitrary: len pend) simp_all

lemma chunkRows_last_big:
  "sum_list (map length row) \<ge> 64000 \<Longrightarrow> last (chunkRows len pend (rows @ [row])) = []"
  by (induction rows arbitrary: len pend) simp_all

lemma length_blockRows [simp]: "length (blockRows b) = wb_rowsLen b"
  by (simp add: blockRows_def)

lemma mergeShardsGeneral_frame:
  "mergeShardsGeneral H psp = Inr (psms, psp1) \<Longrightarrow> \<exists>shs p. psp1 = psp\<lparr>shards := shs, polls := p\<rparr>"
  by (auto simp add: mergeShardsGeneral_def bindE_def Let_def split: sum.splits if_splits prod.splits)

lemma mergeShardsParallel_frame:
  "mergeShardsParallel H psp = Inr (psms, psp1) \<Longrightarrow> \<exists>shs p. psp1 = psp\<lparr>shards := shs, polls := p\<rparr>"
proof (cases "length (shards psp) = 1")
  case True
  assume "mergeShardsParallel H psp = Inr (psms, psp1)"
  with True have "psp1 = psp\<lparr>shards := shards psp, polls := polls psp\<rparr>"
    by (simp add: mergeShardsParallel_def Let_def)
  then show ?thesis by blast
next
  case False
  assume "mergeShardsParallel H psp = Inr (psms, psp1)"
  with False show ?thesis
    using mergeShardsGeneral_frame [of H psp psms psp1] by (simp add: mergeShardsParallel_def)
qed

lemma emptyGroupFallback_frame:
  "emptyGroupFallback psp = Inr (psms, psp1) \<Longrightarrow> \<exists>shs. psp1 = psp\<lparr>shards := shs\<rparr>"
  by (auto simp add: emptyGroupFallback_def bindE_def Let_def split: sum.splits prod.splits)

lemma flushMaps_frame:
  assumes "flushMaps H psp = Inr (Some (psms, psp2))"
  shows "psp_ps psp2 = psp_ps psp \<and> stopCh psp2 = stopCh psp \<and> ppNext psp2 = ppNext psp"
proof -
  from assms obtain psms0 psp0 where m: "mergeShardsParallel H psp = Inr (psms0, psp0)"
    by (cases "mergeShardsParallel H psp") (auto simp add: flushMaps_def)
  from mergeShardsParallel_frame [OF m] obtain shs p where p0: "psp0 = psp\<lparr>shards := shs, polls := p\<rparr>"
    by blast
  let ?psp1 = "psp0\<lparr>polls := Suc (polls psp0)\<rparr>"
  show ?thesis
  proof (cases "length (byFields (psp_ps ?psp1)) = 0 \<and> length psms0 = 0")
    case True
    with assms m obtain r where f: "emptyGroupFallback ?psp1 = Inr r" and r: "r = (psms, psp2)"
      by (cases "emptyGroupFallback ?psp1") (auto simp add: flushMaps_def Let_def split: if_splits)
    from emptyGroupFallback_frame [of ?psp1 psms psp2] f r obtain shs2 where
      "psp2 = ?psp1\<lparr>shards := shs2\<rparr>"
      by auto
    with p0 show ?thesis by simp
  next
    case False
    with assms m have "psp2 = ?psp1"
      by (auto simp add: flushMaps_def Let_def split: if_splits)
    with p0 show ?thesis by simp
  qed
qed

text \<open>
  A flush that returns no error has either read the stop channel closed after the merge
  and written nothing, or has written what its writers produce for the maps.
\<close>

lemma psp_flush_blocks:
  assumes ok: "psp_flush H psp = (psp', None)"
  shows "(flushMaps H psp = Inr None \<and> ppNext psp' = ppNext psp) \<or>
         (\<exists>psms psp2 blocks t.
            flushMaps H psp = Inr (Some (psms, psp2)) \<and>
            writeMaps H (stopCh psp) (polls psp2) (psp_ps psp) 0 psms = Inr (blocks, t) \<and>
            ppNext psp' = ppNext psp @ blocks)"
proof -
  from ok have pos: "\<not> psp_stateSizeBudget psp \<le>s 0"
    by (auto simp add: psp_flush_def split: if_splits)
  from ok pos obtain psms psp0 where m: "mergeShardsParallel H psp = Inr (psms, psp0)"
    by (cases "mergeShardsParallel H psp") (auto simp add: psp_flush_def)
  from mergeShardsParallel_frame [OF m] obtain shs p where p0: "psp0 = psp\<lparr>shards := shs, polls := p\<rparr>"
    by blast
  let ?psp1 = "psp0\<lparr>polls := Suc (polls psp0)\<rparr>"
  show ?thesis
  proof (cases "needStop (stopCh psp0) (polls psp0)")
    case True
    with ok pos m have "psp' = ?psp1"
      by (simp add: psp_flush_def Let_def)
    with p0 have "ppNext psp' = ppNext psp"
      by simp
    moreover have "flushMaps H psp = Inr None"
      using m True by (simp add: flushMaps_def Let_def)
    ultimately show ?thesis by simp
  next
    case False
    let ?fb = "if length (byFields (psp_ps ?psp1)) = 0 \<and> length psms = 0
               then emptyGroupFallback ?psp1 else Inr (psms, ?psp1)"
    from ok pos m False obtain psms' psp2 where f: "?fb = Inr (psms', psp2)"
      by (cases ?fb) (auto simp add: psp_flush_def Let_def)
    have fm: "flushMaps H psp = Inr (Some (psms', psp2))"
      using m False f by (auto simp add: flushMaps_def Let_def split: if_splits)
    note fr = flushMaps_frame [OF fm]
    from ok pos m False f obtain blocks t where
      w: "writeMaps H (stopCh psp2) (polls psp2) (psp_ps psp2) 0 psms' = Inr (blocks, t)"
      and r: "psp' = psp2\<lparr>ppNext := ppNext psp2 @ blocks, polls := t\<rparr>"
      by (cases "writeMaps H (stopCh psp2) (polls psp2) (psp_ps psp2) 0 psms'")
         (auto simp add: psp_flush_def Let_def)
    show ?thesis
      using fm w r fr by auto
  qed
qed

lemma encodable_append: "encodable H v \<Longrightarrow> MarshalBytes H dst v = dst @ MarshalBytes H [] v"
  unfolding encodable_def by blast

lemma encodable_nonempty: "encodable H v \<Longrightarrow> MarshalBytes H [] v \<noteq> []"
  unfolding encodable_def by blast

lemma encodable_roundtrip:
  "encodable H v \<Longrightarrow>
     UnmarshalBytes H (MarshalBytes H [] v @ rest) = (v, int (length (MarshalBytes H [] v)))"
  unfolding encodable_def by blast

lemma fold_MarshalBytes:
  "list_all (encodable H) vs \<Longrightarrow>
     fold (\<lambda>v buf. MarshalBytes H buf v) vs buf = buf @ concat (map (MarshalBytes H []) vs)"
proof (induction vs arbitrary: buf)
  case Nil
  then show ?case by simp
next
  case (Cons v vs)
  from Cons.prems have "MarshalBytes H buf v = buf @ MarshalBytes H [] v"
    using encodable_append [of H v buf] by simp
  with Cons show ?case by simp
qed

lemma unmarshalKey_concat:
  "list_all (encodable H) vs \<Longrightarrow> unmarshalKey H (concat (map (MarshalBytes H []) vs)) = Inr vs"
proof (induction vs)
  case Nil
  then show ?case by (simp add: unmarshalKey.simps)
next
  case (Cons v vs)
  let ?e = "MarshalBytes H [] v"
  from Cons.prems have ne: "?e \<noteq> []"
    and rt: "UnmarshalBytes H (?e @ concat (map (MarshalBytes H []) vs)) = (v, int (length ?e))"
    using encodable_nonempty [of H v] encodable_roundtrip [of H v] by simp_all
  from Cons have ih: "unmarshalKey H (concat (map (MarshalBytes H []) vs)) = Inr vs"
    by simp
  show ?case
    using ne rt ih
    by (subst unmarshalKey.simps) simp
qed

lemma marshalKey_fold:
  "marshalKey H columnValues i buf = Inr key \<Longrightarrow>
     key = fold (\<lambda>v b. MarshalBytes H b v) (map (\<lambda>vals. vals ! i) columnValues) buf"
proof (induction columnValues arbitrary: buf)
  case Nil
  then show ?case by simp
next
  case (Cons vals rest)
  then show ?case
    by (cases "i < length vals") (simp_all add: nthE_def bindE_def)
qed

text \<open>
  The key that the write path builds for a row is split by the writer into the values of
  the by-fields of that row.
\<close>

lemma keyValuesMulti_marshalKey:
  assumes "length columnValues = length (byFields ps)"
    and "marshalKey H columnValues i [] = Inr key"
    and "list_all (\<lambda>vals. encodable H (vals ! i)) columnValues"
  shows "keyValuesMulti H ps key = Inr (map (\<lambda>vals. vals ! i) columnValues)"
proof -
  let ?vs = "map (\<lambda>vals. vals ! i) columnValues"
  have e: "list_all (encodable H) ?vs"
    using assms(3) by (simp add: list_all_iff)
  have "key = concat (map (MarshalBytes H []) ?vs)"
    using marshalKey_fold [OF assms(2)] fold_MarshalBytes [OF e, of "[]"] by simp
  with unmarshalKey_concat [OF e] assms(1) show ?thesis
    by (simp add: keyValuesMulti_def)
qed

lemma keyValuesMulti_length:
  "keyValuesMulti H ps key = Inr vs \<Longrightarrow> length vs = length (byFields ps)"
  by (auto simp add: keyValuesMulti_def bindE_def split: sum.splits if_splits)

lemma encodable_sample: "length v < 256 \<Longrightarrow> encodable sampleHelpers v"
  by (simp add: encodable_def sampleHelpers_fields)

lemma concat_map_concat: "concat (map (\<lambda>bs. concat (map f bs)) bss) = concat (map f (concat bss))"
  by (induction bss) simp_all

lemma writeMaps_rows_flat:
  assumes "writeMaps H ch t ps 0 psms = Inr (blocks, t')"
  shows "\<exists>bss. blocks = concat bss \<and>
           list_all (\<lambda>b. map rc_name (wb_rcs b) = columnNames ps \<and>
                           list_all (\<lambda>rc. length (rc_values rc) = wb_rowsLen b) (wb_rcs b)) (concat bss) \<and>
           map (\<lambda>bs. concat (map blockRows bs)) bss = fst (mapsRowsAt H ch t ps psms) \<and>
           list_all (list_all (\<lambda>row. length row = length (columnNames ps))) (fst (mapsRowsAt H ch t ps psms))"
proof -
  from writeMaps_rows [OF assms] obtain bss rowss where
    c: "blocks = concat bss"
    and rs: "mapsRowsAt H ch t ps psms = (rowss, t')"
    and l: "list_all2 (\<lambda>rows bs. map blockRows bs = chunkRows 0 [] rows \<and>
                                 list_all (\<lambda>row. length row = length (columnNames ps)) rows \<and>
                                 list_all (\<lambda>b. map rc_name (wb_rcs b) = columnNames ps \<and>
                                   list_all (\<lambda>rc. length (rc_values rc) = wb_rowsLen b) (wb_rcs b)) bs) rowss bss"
    by blast
  have a: "list_all (\<lambda>b. map rc_name (wb_rcs b) = columnNames ps \<and>
                           list_all (\<lambda>rc. length (rc_values rc) = wb_rowsLen b) (wb_rcs b)) (concat bss)"
    using l by (induction rowss bss rule: list_all2_induct) simp_all
  have b: "map (\<lambda>bs. concat (map blockRows bs)) bss = rowss"
    using l
  proof (induction rowss bss rule: list_all2_induct)
    case Nil
    then show ?case by simp
  next
    case (Cons rows rowss bs bss)
    from Cons.hyps(1) have "concat (map blockRows bs) = concat (chunkRows 0 [] rows)"
      by simp
    then have "concat (map blockRows bs) = rows"
      by (simp add: concat_chunkRows)
    with Cons show ?case by simp
  qed
  have d: "list_all (list_all (\<lambda>row. length row = length (columnNames ps))) rowss"
    using l by (induction rowss bss rule: list_all2_induct) simp_all
  from a b c d rs show ?thesis
    by (intro exI [of _ bss]) simp
qed

lemma mapsRowsAt_grouped:
  "fst (mapsRowsAt sampleHelpers None 1 pipeCountBy [shard_m groupedShard]) =
     [[[''7'', ''1''], [''-3'', ''1''], [''abc'', ''1'']]]"
  by (simp add: mapRowsAt_def pipeCountBy_def groupedShard_def keyValuesOf_def
      sampleHelpers_fields finalValues_def countGroup_def countProcessor_def
      showNat.simps digitChar_def formatInt_def Let_def)

lemma chunkRows_last_empty:
  "last (chunkRows len pend rows) = [] \<longleftrightarrow>
     (rows = [] \<and> pend = []) \<or>
     (rows \<noteq> [] \<and> 64000 \<le> bufferedLen len (butlast rows) + sum_list (map length (last rows)))"
proof (induction rows arbitrary: len pend)
  case Nil
  then show ?case by simp
next
  case (Cons row rest)
  show ?case
  proof (cases "rest = []")
    case True
    then show ?thesis by simp
  next
    case False
    then show ?thesis
      using Cons.IH [of 0 "[]"] Cons.IH [of "len + sum_list (map length row)" "pend @ [row]"]
      by simp
  qed
qed

lemma writerBlocks_chunks:
  assumes m: "map blockRows bs = chunkRows 0 [] rows"
    and w: "list_all (\<lambda>b. wb_workerID b = i) bs"
  shows "writerBlocks i rows bs"
proof -
  from m have ne: "bs \<noteq> []"
    by (metis chunkRows_not_Nil map_is_Nil_conv)
  have "list_all (\<lambda>c. c \<noteq> []) (butlast (map blockRows bs))"
    unfolding m by (rule butlast_chunkRows_nonempty)
  then have "list_all (\<lambda>b. blockRows b \<noteq> []) (butlast bs)"
    by (simp add: map_butlast [symmetric] list_all_iff)
  then have bl: "list_all (\<lambda>b. 1 \<le> wb_rowsLen b) (butlast bs)"
    by (auto simp add: list_all_iff blockRows_def)
  have "last (map blockRows bs) = blockRows (last bs)"
    using ne by (simp add: last_map)
  then have "blockRows (last bs) = [] \<longleftrightarrow> last (chunkRows 0 [] rows) = []"
    using m by simp
  moreover have "blockRows (last bs) = [] \<longleftrightarrow> wb_rowsLen (last bs) = 0"
    by (simp add: blockRows_def)
  ultimately have "wb_rowsLen (last bs) = 0 \<longleftrightarrow>
        rows = [] \<or>
        (rows \<noteq> [] \<and> 64000 \<le> bufferedLen 0 (butlast rows) + sum_list (map length (last rows)))"
    using chunkRows_last_empty [of 0 "[]" rows] by simp
  with m ne w bl show ?thesis
    unfolding writerBlocks_def by blast
qed

lemma fst_fold_newStatsProcessor:
  "fst (fold (\<lambda>fn (acc, b). (acc @ [f fn], b - g fn)) fs (acc0, b0)) = acc0 @ map f fs"
  by (induction fs arbitrary: acc0 b0) simp_all

lemma fst_newPipeStatsGroup: "fst (newPipeStatsGroup ps shard) = freshGroup ps"
  using fst_fold_newStatsProcessor
    [of "\<lambda>fn. fst (newStatsProcessor (psf_f fn))" "\<lambda>fn. of_nat (snd (newStatsProcessor (psf_f fn)))"
        "funcs ps" "[]" "stateSizeBudget shard"]
  by (simp add: newPipeStatsGroup_def freshGroup_def Let_def split_beta)

lemma snd_newPipeStatsGroup [simp]:
  "shard_m (snd (newPipeStatsGroup ps shard)) = shard_m shard"
  "bms (snd (newPipeStatsGroup ps shard)) = bms shard"
  by (simp_all add: newPipeStatsGroup_def Let_def split_beta)

lemma emptyGroupFallback_maps:
  assumes "emptyGroupFallback psp = Inr (psms, psp2)"
  shows "psms = [emptyKeyMap (psp_ps psp)]"
proof -
  from assms obtain shard0 where "nthE (shards psp) 0 = Inr shard0"
    by (cases "nthE (shards psp) 0") (simp_all add: emptyGroupFallback_def)
  with assms show ?thesis
    using fst_newPipeStatsGroup [of "psp_ps psp" "shard_init (psp_ps psp) shard0"]
    by (auto simp add: emptyGroupFallback_def getPipeStatsGroupString_def shard_init_def psm_init_def
        emptyKeyMap_def Let_def split_beta)
qed

lemma needStop_Suc: "needStop ch t \<Longrightarrow> needStop ch (Suc t)"
  by (cases ch) (simp_all add: needStop_def)

lemma flushMaps_fallback:
  assumes by0: "length (byFields (psp_ps psp)) = 0"
    and m: "mergeShardsParallel H psp = Inr ([], psp0)"
    and fm: "flushMaps H psp = Inr (Some (psms, psp2))"
  shows "psms = [emptyKeyMap (psp_ps psp)] \<and> polls psp2 = Suc (polls psp0)"
proof -
  from mergeShardsParallel_frame [OF m] obtain shs p where p0: "psp0 = psp\<lparr>shards := shs, polls := p\<rparr>"
    by blast
  let ?psp1 = "psp0\<lparr>polls := Suc (polls psp0)\<rparr>"
  from fm m by0 p0 have ns: "\<not> needStop (stopCh psp0) (polls psp0)"
    by (auto simp add: flushMaps_def Let_def split: if_splits)
  from fm m by0 p0 ns obtain r where f: "emptyGroupFallback ?psp1 = Inr r" and r: "r = (psms, psp2)"
    by (cases "emptyGroupFallback ?psp1") (auto simp add: flushMaps_def Let_def)
  from f r have f': "emptyGroupFallback ?psp1 = Inr (psms, psp2)"
    by simp
  from emptyGroupFallback_maps [OF f'] p0 have "psms = [emptyKeyMap (psp_ps psp)]"
    by simp
  moreover from emptyGroupFallback_frame [OF f'] have "polls psp2 = Suc (polls psp0)"
    by auto
  ultimately show ?thesis by simp
qed

lemma mapRowsAt_emptyKeyMap:
  assumes "length (byFields ps) = 0" and "\<not> needStop ch t"
  shows "fst (mapRowsAt H ch t ps (emptyKeyMap ps)) = [finalValuesAt ch (Suc t) (freshGroup ps)]"
  using assms
  by (simp add: mapRowsAt_def emptyKeyMap_def keyValuesOf_def keyValuesMulti_def unmarshalKey.simps)

lemma length_mapsRowsAt [simp]: "length (fst (mapsRowsAt H ch t ps psms)) = length psms"
  by (induction psms arbitrary: t) (simp_all add: split_beta)

lemma writeMaps_writerBlocks:
  assumes w: "writeMaps H ch t ps 0 psms = Inr (blocks, t')"
  shows "\<exists>bss. blocks = concat bss \<and>
           list_all2 (\<lambda>(i, rows) bs. writerBlocks i rows bs)
             (zip [0..<length psms] (fst (mapsRowsAt H ch t ps psms))) bss"
proof -
  from writeMaps_rows [OF w] obtain bss rowss where
    c: "blocks = concat bss"
    and rs: "mapsRowsAt H ch t ps psms = (rowss, t')"
    and l: "list_all2 (\<lambda>rows bs. map blockRows bs = chunkRows 0 [] rows \<and>
                                 list_all (\<lambda>row. length row = length (columnNames ps)) rows \<and>
                                 list_all (\<lambda>b. map rc_name (wb_rcs b) = columnNames ps \<and>
                                   list_all (\<lambda>rc. length (rc_values rc) = wb_rowsLen b) (wb_rcs b)) bs) rowss bss"
    and wk: "list_all2 (\<lambda>i bs. list_all (\<lambda>b. wb_workerID b = i) bs) [0..<0 + length psms] bss"
    by blast
  from l have len1: "length rowss = length bss"
    by (rule list_all2_lengthD)
  from wk have len2: "length psms = length bss"
    using list_all2_lengthD by fastforce
  have "list_all2 (\<lambda>(i, rows) bs. writerBlocks i rows bs) (zip [0..<length psms] rowss) bss"
  proof (rule list_all2_all_nthI)
    show "length (zip [0..<length psms] rowss) = length bss"
      using len1 len2 by simp
  next
    fix n
    assume n: "n < length (zip [0..<length psms] rowss)"
    then have n1: "n < length rowss" and n2: "n < length psms"
      by simp_all
    from l n1 have a: "map blockRows (bss ! n) = chunkRows 0 [] (rowss ! n)"
      by (simp add: list_all2_conv_all_nth)
    from wk n2 have b: "list_all (\<lambda>b. wb_workerID b = n) (bss ! n)"
      by (simp add: list_all2_conv_all_nth)
    from writerBlocks_chunks [OF a b] n1 n2
    show "(case zip [0..<length psms] rowss ! n of (i, rows) \<Rightarrow> \<lambda>bs. writerBlocks i rows bs) (bss ! n)"
      by simp
  qed
  with c rs show ?thesis
    by auto
qed

lemma psp_flush_fallback:
  fixes psp :: "'a pipeStatsProcessor"
  assumes ok: "psp_flush H psp = (psp', None)"
    and by0: "length (byFields (psp_ps psp)) = 0"
    and m: "mergeShardsParallel H psp = Inr ([], psp0)"
    and ns: "\<not> needStop (stopCh psp) (Suc (polls psp0))"
  shows "\<exists>bs. ppNext psp' = ppNext psp @ bs \<and>
           list_all (\<lambda>b. map rc_name (wb_rcs b) = columnNames (psp_ps psp) \<and>
                           list_all (\<lambda>rc. length (rc_values rc) = wb_rowsLen b) (wb_rcs b) \<and>
                           wb_workerID b = 0) bs \<and>
           map blockRows bs =
             chunkRows 0 [] [finalValuesAt (stopCh psp) (Suc (Suc (polls psp0))) (freshGroup (psp_ps psp))]"
proof -
  from mergeShardsParallel_frame [OF m] obtain shs p where p0: "psp0 = psp\<lparr>shards := shs, polls := p\<rparr>"
    by blast
  from ns have ns0: "\<not> needStop (stopCh psp) (polls psp0)"
    using needStop_Suc by blast
  have nn: "flushMaps H psp \<noteq> Inr None"
    using m ns0 p0 by (auto simp add: flushMaps_def Let_def bindE_def split: sum.splits)
  from psp_flush_blocks [OF ok] nn obtain psms psp2 blocks t where
    fm: "flushMaps H psp = Inr (Some (psms, psp2))"
    and w: "writeMaps H (stopCh psp) (polls psp2) (psp_ps psp) 0 psms = Inr (blocks, t)"
    and nx: "ppNext psp' = ppNext psp @ blocks"
    by blast
  from flushMaps_fallback [OF by0 m fm] have ps: "psms = [emptyKeyMap (psp_ps psp)]"
    and t2: "polls psp2 = Suc (polls psp0)"
    by simp_all
  from w ps t2 obtain bs t1 where
    wm: "writeMap H (stopCh psp) (Suc (polls psp0)) (psp_ps psp) 0 (emptyKeyMap (psp_ps psp)) = Inr (bs, t1)"
    and b: "blocks = bs"
    by (cases "writeMap H (stopCh psp) (Suc (polls psp0)) (psp_ps psp) 0 (emptyKeyMap (psp_ps psp))") auto
  from writeMap_rows [OF wm] obtain rows where
    r: "mapRowsAt H (stopCh psp) (Suc (polls psp0)) (psp_ps psp) (emptyKeyMap (psp_ps psp)) = (rows, t1)"
    and c: "map blockRows bs = chunkRows 0 [] rows"
    and n: "list_all (\<lambda>b. map rc_name (wb_rcs b) = columnNames (psp_ps psp) \<and>
                           list_all (\<lambda>rc. length (rc_values rc) = wb_rowsLen b) (wb_rcs b) \<and>
                           wb_workerID b = 0) bs"
    by blast
  from mapRowsAt_emptyKeyMap [OF by0 ns, of H] r
  have "rows = [finalValuesAt (stopCh psp) (Suc (Suc (polls psp0))) (freshGroup (psp_ps psp))]"
    by simp
  with nx b c n show ?thesis
    by blast
qed

lemma psp_flush_count_empty:
  "psp_flush sampleHelpers (sampleProcessor pipeCount 0 1000) =
     ((sampleProcessor pipeCount 0 1000)
        \<lparr>ppNext := [\<lparr>wb_workerID = 0, wb_rcs = [\<lparr>rc_name = ''n'', rc_values = [''0'']\<rparr>], wb_rowsLen = 1\<rparr>],
          polls := 3,
          shards := [\<lparr>shard_m = \<lparr>u64 = [], negative64 = [],
                                   strings = [([], \<lparr>psg_funcs = [countFunc], sfps = [countProcessor]\<rparr>)]\<rparr>,
                       bms = [[]], stateSizeBudget = - 48\<rparr>]\<rparr>,
      None)"
  by (simp add: psp_flush_def sampleProcessor_def emptyShard_def psm_init_def
      mergeShardsParallel_def entriesCount_def pipeCount_def writeMap_def writeShardData_def
      emptyGroupFallback_def shard_init_def getPipeStatsGroupString_def newPipeStatsGroup_def
      statsCount_def
      newPipeStatsWriter_def appendResultColumnWithName_def countFunc_def keyValuesMulti_def
      unmarshalKey.simps
      sampleHelpers_fields writePipeStatsGroup_def countProcessor_def
      showNat.simps digitChar_def
      addValue_def psw_flush_def resetValues_def
      word_sle_eq Let_def)

lemma mergeShardsParallel_count_empty:
  "mergeShardsParallel sampleHelpers (sampleProcessor pipeCount 0 1000) =
     Inr ([], sampleProcessor pipeCount 0 1000)"
  by (simp add: mergeShardsParallel_def sampleProcessor_def emptyShard_def psm_init_def
      entriesCount_def Let_def)

lemma flushMaps_long:
  "flushMaps sampleHelpers longGroupProcessor =
     Inr (Some ([shard_m (shards longGroupProcessor ! 0)], longGroupProcessor\<lparr>polls := 1\<rparr>))"
  by (simp add: flushMaps_def longGroupProcessor_def sampleProcessor_def
      mergeShardsParallel_def entriesCount_def pipeLong_def Let_def)

lemma mapsRowsAt_long:
  "fst (mapsRowsAt sampleHelpers None 1 pipeLong [shard_m (shards longGroupProcessor ! 0)]) =
     [[[replicate 64000 CHR ''x'']]]"
  by (simp add: mapRowsAt_def pipeLong_def longGroupProcessor_def keyValuesOf_def
      keyValuesMulti_def unmarshalKey.simps
      sampleHelpers_fields finalValues_def longProcessor_def countProcessor_def Let_def)

section \<open>The order of the output columns\<close>

text \<open>
  C5. A flush that returns no error either reads the stop channel closed right after the
  merge and writes nothing, or hands the maps \<open>flushMaps\<close> to its writers, one writer
  per map, and appends the blocks of the writers to those of the next pipe. The columns
  of every appended block are named, in this order, by the by-fields in the order of
  their declaration and then by the result names of the functions in the order of their
  declaration, and every column holds one value per row of the block. The rows of the
  blocks of a writer, in the order in which they are written, are exactly the rows of
  the groups of its map (up to the poll that reads the stop channel closed): for every
  group the values of the by-fields rebuilt from its key, followed by the final values of
  its processors in the order of the functions; every row has one value per by-field and
  one per function. The values that the writer rebuilds from a composite key are as many
  as the by-fields, and for a key that the write path built from the values of a row
  they are the values of that row, in the order of the by-fields.
\<close>

theorem output_column_order:
  fixes psp :: "'a pipeStatsProcessor"
  assumes ok: "psp_flush H psp = (psp', None)"
  shows "((flushMaps H psp = Inr None \<and> ppNext psp' = ppNext psp) \<or>
          (\<exists>psms psp2 bss.
             flushMaps H psp = Inr (Some (psms, psp2)) \<and>
             ppNext psp' = ppNext psp @ concat bss \<and>
             list_all (\<lambda>b. map rc_name (wb_rcs b) =
                               map name (byFields (psp_ps psp)) @ map resultName (funcs (psp_ps psp)) \<and>
                             list_all (\<lambda>rc. length (rc_values rc) = wb_rowsLen b) (wb_rcs b))
               (concat bss) \<and>
             map (\<lambda>bs. concat (map blockRows bs)) bss =
               fst (mapsRowsAt H (stopCh psp) (polls psp2) (psp_ps psp) psms) \<and>
             list_all (list_all (\<lambda>row. length row =
                                   length (byFields (psp_ps psp)) + length (funcs (psp_ps psp))))
               (fst (mapsRowsAt H (stopCh psp) (polls psp2) (psp_ps psp) psms)))) \<and>
         (\<forall>key vs. keyValuesMulti H (psp_ps psp) key = Inr vs \<longrightarrow>
                     length vs = length (byFields (psp_ps psp))) \<and>
         (\<forall>columnValues i key.
            length columnValues = length (byFields (psp_ps psp)) \<and>
            marshalKey H columnValues i [] = Inr key \<and>
            list_all (\<lambda>vals. encodable H (vals ! i)) columnValues \<longrightarrow>
            keyValuesMulti H (psp_ps psp) key = Inr (map (\<lambda>vals. vals ! i) columnValues))"
proof (intro conjI allI impI)
  from psp_flush_blocks [OF ok]
  show "(flushMaps H psp = Inr None \<and> ppNext psp' = ppNext psp) \<or>
          (\<exists>psms psp2 bss.
             flushMaps H psp = Inr (Some (psms, psp2)) \<and>
             ppNext psp' = ppNext psp @ concat bss \<and>
             list_all (\<lambda>b. map rc_name (wb_rcs b) =
                               map name (byFields (psp_ps psp)) @ map resultName (funcs (psp_ps psp)) \<and>
                             list_all (\<lambda>rc. length (rc_values rc) = wb_rowsLen b) (wb_rcs b))
               (concat bss) \<and>
             map (\<lambda>bs. concat (map blockRows bs)) bss =
               fst (mapsRowsAt H (stopCh psp) (polls psp2) (psp_ps psp) psms) \<and>
             list_all (list_all (\<lambda>row. length row =
                                   length (byFields (psp_ps psp)) + length (funcs (psp_ps psp))))
               (fst (mapsRowsAt H (stopCh psp) (polls psp2) (psp_ps psp) psms)))"
  proof
    assume "flushMaps H psp = Inr None \<and> ppNext psp' = ppNext psp"
    then show ?thesis by simp
  next
    assume "\<exists>psms psp2 blocks t.
              flushMaps H psp = Inr (Some (psms, psp2)) \<and>
              writeMaps H (stopCh psp) (polls psp2) (psp_ps psp) 0 psms = Inr (blocks, t) \<and>
              ppNext psp' = ppNext psp @ blocks"
    then obtain psms psp2 blocks t where
      fm: "flushMaps H psp = Inr (Some (psms, psp2))"
      and w: "writeMaps H (stopCh psp) (polls psp2) (psp_ps psp) 0 psms = Inr (blocks, t)"
      and nx: "ppNext psp' = ppNext psp @ blocks"
      by blast
    from writeMaps_rows_flat [OF w] obtain bss where
      "blocks = concat bss"
      "list_all (\<lambda>b. map rc_name (wb_rcs b) = columnNames (psp_ps psp) \<and>
                           list_all (\<lambda>rc. length (rc_values rc) = wb_rowsLen b) (wb_rcs b)) (concat bss)"
      "map (\<lambda>bs. concat (map blockRows bs)) bss =
         fst (mapsRowsAt H (stopCh psp) (polls psp2) (psp_ps psp) psms)"
      "list_all (list_all (\<lambda>row. length row = length (columnNames (psp_ps psp))))
         (fst (mapsRowsAt H (stopCh psp) (polls psp2) (psp_ps psp) psms))"
      by blast
    with fm nx have
      "flushMaps H psp = Inr (Some (psms, psp2)) \<and>
             ppNext psp' = ppNext psp @ concat bss \<and>
             list_all (\<lambda>b. map rc_name (wb_rcs b) =
                               map name (byFields (psp_ps psp)) @ map resultName (funcs (psp_ps psp)) \<and>
                             list_all (\<lambda>rc. length (rc_values rc) = wb_rowsLen b) (wb_rcs b))
               (concat bss) \<and>
             map (\<lambda>bs. concat (map blockRows bs)) bss =
               fst (mapsRowsAt H (stopCh psp) (polls psp2) (psp_ps psp) psms) \<and>
             list_all (list_all (\<lambda>row. length row =
                                   length (byFields (psp_ps psp)) + length (funcs (psp_ps psp))))
               (fst (mapsRowsAt H (stopCh psp) (polls psp2) (psp_ps psp) psms))"
      by (simp add: columnNames_def)
    then show ?thesis by blast
  qed
next
  fix key vs
  assume "keyValuesMulti H (psp_ps psp) key = Inr vs"
  then show "length vs = length (byFields (psp_ps psp))"
    by (rule keyValuesMulti_length)
next
  fix columnValues i key
  assume "length columnValues = length (byFields (psp_ps psp)) \<and>
          marshalKey H columnValues i [] = Inr key \<and>
          list_all (\<lambda>vals. encodable H (vals ! i)) columnValues"
  then show "keyValuesMulti H (psp_ps psp) key = Inr (map (\<lambda>vals. vals ! i) columnValues)"
    using keyValuesMulti_marshalKey by blast
qed

theorem output_column_order_witness:
  "psp_flush sampleHelpers groupedProcessor =
     (groupedProcessor\<lparr>ppNext := [groupedBlock], polls := 7\<rparr>, None) \<and>
   flushMaps sampleHelpers groupedProcessor =
     Inr (Some ([shard_m groupedShard], groupedProcessor\<lparr>polls := 1\<rparr>)) \<and>
   map rc_name (wb_rcs groupedBlock) = [''x'', ''n''] \<and>
   blockRows groupedBlock = [[''7'', ''1''], [''-3'', ''1''], [''abc'', ''1'']] \<and>
   marshalKey sampleHelpers [[''7'', ''abc'']] 1 [] = Inr (char_of (3 :: nat) # ''abc'') \<and>
   keyValuesMulti sampleHelpers pipeCountBy (char_of (3 :: nat) # ''abc'') = Inr [''abc'']"
proof -
  note main = output_column_order [OF psp_flush_grouped]
  have ps: "psp_ps groupedProcessor = pipeCountBy" and ch: "stopCh groupedProcessor = None"
    and nx0: "ppNext groupedProcessor = []"
    by (simp_all add: groupedProcessor_def sampleProcessor_def)
  from main flushMaps_grouped obtain bss where
    nx: "ppNext (groupedProcessor\<lparr>ppNext := [groupedBlock], polls := 7\<rparr>) =
           ppNext groupedProcessor @ concat bss"
    and names: "list_all (\<lambda>b. map rc_name (wb_rcs b) =
                   map name (byFields (psp_ps groupedProcessor)) @
                   map resultName (funcs (psp_ps groupedProcessor)) \<and>
                   list_all (\<lambda>rc. length (rc_values rc) = wb_rowsLen b) (wb_rcs b)) (concat bss)"
    and rows: "map (\<lambda>bs. concat (map blockRows bs)) bss =
                 fst (mapsRowsAt sampleHelpers (stopCh groupedProcessor)
                        (polls (groupedProcessor\<lparr>polls := 1\<rparr>)) (psp_ps groupedProcessor)
                        [shard_m groupedShard])"
    by auto
  from nx nx0 have c: "concat bss = [groupedBlock]"
    by simp
  from names c ps have n: "map rc_name (wb_rcs groupedBlock) = [''x'', ''n'']"
    by (simp add: pipeCountBy_def byX_def countFunc_def)
  have p1: "polls (groupedProcessor\<lparr>polls := 1\<rparr>) = 1"
    by simp
  from rows have "map (\<lambda>bs. concat (map blockRows bs)) bss =
      [[[''7'', ''1''], [''-3'', ''1''], [''abc'', ''1'']]]"
    unfolding ps ch p1 mapsRowsAt_grouped .
  then have "concat (map (\<lambda>bs. concat (map blockRows bs)) bss) =
      [[''7'', ''1''], [''-3'', ''1''], [''abc'', ''1'']]"
    by simp
  then have r: "blockRows groupedBlock = [[''7'', ''1''], [''-3'', ''1''], [''abc'', ''1'']]"
    using c by (simp add: concat_map_concat)
  have mk: "marshalKey sampleHelpers [[''7'', ''abc'']] 1 [] = Inr (char_of (3 :: nat) # ''abc'')"
    by (simp add: sampleHelpers_fields)
  have len: "length [[''7'', ''abc'']] = length (byFields (psp_ps groupedProcessor))"
    by (simp add: ps pipeCountBy_def)
  have enc: "list_all (\<lambda>vals. encodable sampleHelpers (vals ! 1)) [[''7'', ''abc'']]"
    by (simp add: encodable_sample)
  from main mk len enc
  have "keyValuesMulti sampleHelpers (psp_ps groupedProcessor) (char_of (3 :: nat) # ''abc'') =
          Inr (map (\<lambda>vals. vals ! 1) [[''7'', ''abc'']])"
    by blast
  then have kv: "keyValuesMulti sampleHelpers pipeCountBy (char_of (3 :: nat) # ''abc'') = Inr [''abc'']"
    by (simp add: ps)
  from psp_flush_grouped flushMaps_grouped n r mk kv show ?thesis
    by simp
qed

section \<open>Blocks without rows\<close>

text \<open>
  C7, as stated, does not hold. A pipe without by-fields whose only function finalizes to
  64000 bytes processes a block of three rows; the group of the empty key is a group of
  matched rows. The flush writes two blocks: \<^verbatim>\<open>writePipeStatsGroup\<close> reaches the
  limit of 64000 bytes and flushes the row, and the closing \<^verbatim>\<open>psw.flush()\<close> of the
  writer then writes a block of zero rows.
\<close>

theorem zero_row_block_counterexample:
  "psp_writeBlock sampleHelpers (sampleProcessor pipeLong 0 1000) 0 sampleBlock = Inr longGroupProcessor \<and>
   rowsLen sampleBlock = 3 \<and>
   entriesCount (shard_m (shards longGroupProcessor ! 0)) = 1 \<and>
   snd (psp_flush sampleHelpers longGroupProcessor) = None \<and>
   map wb_rowsLen (ppNext (fst (psp_flush sampleHelpers longGroupProcessor))) = [1, 0]"
  using psp_writeBlock_long psp_flush_long
  by (simp add: sampleBlock_def longGroupProcessor_def entriesCount_def)

text \<open>
  C7, amended. A flush that returns no error either reads the stop channel closed right
  after the merge and writes nothing, or hands the maps \<open>flushMaps\<close> to its writers,
  one writer per map, the workers numbered from 0 in the order of the maps, and appends
  the blocks of the writers. The blocks of a writer are the rows of its map in blocks
  (\<open>writerBlocks\<close>): a row that takes the buffered length to 64000 bytes or more closes
  a block, and the writer closes with one more block that holds the rows still buffered.
  So every writer writes at least one block, every block except its last one has at
  least one row, and its last block has zero rows exactly when the writer wrote no row at
  all (its map has no group, or the stop channel read closed before the first group) or
  the row it wrote last took the buffered length to 64000 bytes or more. When there are
  no by-fields, the merge leaves no map and the stop channel still reads open at the
  writer's first poll, the group synthesized for the empty key is written by worker 0 as
  one block with one row, the final values of new processors; a block of zero rows
  follows it exactly when these values take 64000 bytes or more.
\<close>

theorem zero_row_block_only_last:
  fixes psp :: "'a pipeStatsProcessor"
  assumes ok: "psp_flush H psp = (psp', None)"
  shows "((flushMaps H psp = Inr None \<and> ppNext psp' = ppNext psp) \<or>
          (\<exists>psms psp2 bss.
             flushMaps H psp = Inr (Some (psms, psp2)) \<and>
             ppNext psp' = ppNext psp @ concat bss \<and>
             list_all2 (\<lambda>(i, rows) bs. writerBlocks i rows bs)
               (zip [0..<length psms]
                    (fst (mapsRowsAt H (stopCh psp) (polls psp2) (psp_ps psp) psms)))
               bss)) \<and>
         (\<forall>psp0.
            length (byFields (psp_ps psp)) = 0 \<and>
            mergeShardsParallel H psp = Inr ([], psp0) \<and>
            \<not> needStop (stopCh psp) (Suc (polls psp0)) \<longrightarrow>
            (\<exists>bs. ppNext psp' = ppNext psp @ bs \<and>
                   list_all (\<lambda>b. wb_workerID b = 0) bs \<and>
                   map blockRows bs =
                     (let row = finalValuesAt (stopCh psp) (Suc (Suc (polls psp0)))
                                  (freshGroup (psp_ps psp))
                      in if 64000 \<le> sum_list (map length row) then [[row], []] else [[row]])))"
proof (intro conjI allI impI)
  from psp_flush_blocks [OF ok]
  show "(flushMaps H psp = Inr None \<and> ppNext psp' = ppNext psp) \<or>
          (\<exists>psms psp2 bss.
             flushMaps H psp = Inr (Some (psms, psp2)) \<and>
             ppNext psp' = ppNext psp @ concat bss \<and>
             list_all2 (\<lambda>(i, rows) bs. writerBlocks i rows bs)
               (zip [0..<length psms]
                    (fst (mapsRowsAt H (stopCh psp) (polls psp2) (psp_ps psp) psms)))
               bss)"
  proof
    assume "flushMaps H psp = Inr None \<and> ppNext psp' = ppNext psp"
    then show ?thesis by simp
  next
    assume "\<exists>psms psp2 blocks t.
              flushMaps H psp = Inr (Some (psms, psp2)) \<and>
              writeMaps H (stopCh psp) (polls psp2) (psp_ps psp) 0 psms = Inr (blocks, t) \<and>
              ppNext psp' = ppNext psp @ blocks"
    then obtain psms psp2 blocks t where
      fm: "flushMaps H psp = Inr (Some (psms, psp2))"
      and w: "writeMaps H (stopCh psp) (polls psp2) (psp_ps psp) 0 psms = Inr (blocks, t)"
      and nx: "ppNext psp' = ppNext psp @ blocks"
      by blast
    from writeMaps_writerBlocks [OF w] fm nx show ?thesis
      by blast
  qed
next
  fix psp0
  assume a: "length (byFields (psp_ps psp)) = 0 \<and>
             mergeShardsParallel H psp = Inr ([], psp0) \<and>
             \<not> needStop (stopCh psp) (Suc (polls psp0))"
  from a psp_flush_fallback [OF ok, of psp0] obtain bs where
    "ppNext psp' = ppNext psp @ bs"
    "list_all (\<lambda>b. wb_workerID b = 0) bs"
    "map blockRows bs =
       chunkRows 0 [] [finalValuesAt (stopCh psp) (Suc (Suc (polls psp0))) (freshGroup (psp_ps psp))]"
    by (auto simp add: list_all_iff)
  then show "\<exists>bs. ppNext psp' = ppNext psp @ bs \<and>
                   list_all (\<lambda>b. wb_workerID b = 0) bs \<and>
                   map blockRows bs =
                     (let row = finalValuesAt (stopCh psp) (Suc (Suc (polls psp0)))
                                  (freshGroup (psp_ps psp))
                      in if 64000 \<le> sum_list (map length row) then [[row], []] else [[row]])"
    by (intro exI [of _ bs]) (simp add: Let_def)
qed

theorem zero_row_block_only_last_witness:
  "psp_flush sampleHelpers longGroupProcessor =
     (longGroupProcessor
        \<lparr>ppNext := [\<lparr>wb_workerID = 0,
                      wb_rcs = [\<lparr>rc_name = ''v'', rc_values = [replicate 64000 CHR ''x'']\<rparr>],
                      wb_rowsLen = 1\<rparr>,
                    \<lparr>wb_workerID = 0,
                      wb_rcs = [\<lparr>rc_name = ''v'', rc_values = []\<rparr>],
                      wb_rowsLen = 0\<rparr>],
          polls := 3\<rparr>,
      None) \<and>
   writerBlocks 0 [[replicate 64000 CHR ''x'']]
     [\<lparr>wb_workerID = 0,
        wb_rcs = [\<lparr>rc_name = ''v'', rc_values = [replicate 64000 CHR ''x'']\<rparr>],
        wb_rowsLen = 1\<rparr>,
      \<lparr>wb_workerID = 0,
        wb_rcs = [\<lparr>rc_name = ''v'', rc_values = []\<rparr>],
        wb_rowsLen = 0\<rparr>] \<and>
   snd (psp_flush sampleHelpers (sampleProcessor pipeCount 0 1000)) = None \<and>
   map blockRows (ppNext (fst (psp_flush sampleHelpers (sampleProcessor pipeCount 0 1000)))) = [[[''0'']]]"
proof -
  let ?b1 = "\<lparr>wb_workerID = 0,
               wb_rcs = [\<lparr>rc_name = ''v'', rc_values = [replicate 64000 CHR ''x'']\<rparr>],
               wb_rowsLen = 1\<rparr>"
  let ?b2 = "\<lparr>wb_workerID = 0, wb_rcs = [\<lparr>rc_name = ''v'', rc_values = []\<rparr>], wb_rowsLen = 0\<rparr>"
  note long = zero_row_block_only_last [OF psp_flush_long]
  have ps: "psp_ps longGroupProcessor = pipeLong" and ch: "stopCh longGroupProcessor = None"
    and nx0: "ppNext longGroupProcessor = []"
    by (simp_all add: longGroupProcessor_def sampleProcessor_def)
  have p1: "polls (longGroupProcessor\<lparr>polls := 1\<rparr>) = 1"
    by simp
  from long flushMaps_long obtain bss where
    nx: "ppNext (longGroupProcessor\<lparr>ppNext := [?b1, ?b2], polls := 3\<rparr>) =
           ppNext longGroupProcessor @ concat bss"
    and l: "list_all2 (\<lambda>(i, rows) bs. writerBlocks i rows bs)
              (zip [0..<length [shard_m (shards longGroupProcessor ! 0)]]
                 (fst (mapsRowsAt sampleHelpers (stopCh longGroupProcessor)
                         (polls (longGroupProcessor\<lparr>polls := 1\<rparr>)) (psp_ps longGroupProcessor)
                         [shard_m (shards longGroupProcessor ! 0)])))
              bss"
    by auto
  from l have l': "list_all2 (\<lambda>(i, rows) bs. writerBlocks i rows bs)
                     (zip [0..<length [shard_m (shards longGroupProcessor ! 0)]]
                        [[[replicate 64000 CHR ''x'']]]) bss"
    unfolding ps ch p1 mapsRowsAt_long .
  then obtain bs where bss: "bss = [bs]" and wb: "writerBlocks 0 [[replicate 64000 CHR ''x'']] bs"
    by (auto simp add: list_all2_Cons1)
  from nx nx0 bss have "bs = [?b1, ?b2]"
    by simp
  with wb have A: "writerBlocks 0 [[replicate 64000 CHR ''x'']] [?b1, ?b2]"
    by simp
  let ?psp = "sampleProcessor pipeCount 0 1000"
  obtain psp' where f: "psp_flush sampleHelpers ?psp = (psp', None)"
    and n: "ppNext psp' = [\<lparr>wb_workerID = 0, wb_rcs = [\<lparr>rc_name = ''n'', rc_values = [''0'']\<rparr>], wb_rowsLen = 1\<rparr>]"
    using psp_flush_count_empty by simp
  have h: "length (byFields (psp_ps ?psp)) = 0 \<and>
           mergeShardsParallel sampleHelpers ?psp = Inr ([], ?psp) \<and>
           \<not> needStop (stopCh ?psp) (Suc (polls ?psp))"
    using mergeShardsParallel_count_empty by (simp add: sampleProcessor_def pipeCount_def)
  from zero_row_block_only_last [OF f] h obtain bs' where
    b1: "ppNext psp' = ppNext ?psp @ bs'"
    and b2: "map blockRows bs' =
               (let row = finalValuesAt (stopCh ?psp) (Suc (Suc (polls ?psp))) (freshGroup (psp_ps ?psp))
                in if 64000 \<le> sum_list (map length row) then [[row], []] else [[row]])"
    by blast
  have "finalValuesAt (stopCh ?psp) (Suc (Suc (polls ?psp))) (freshGroup (psp_ps ?psp)) = [''0'']"
    by (simp add: sampleProcessor_def pipeCount_def freshGroup_def finalValues_def countFunc_def
        statsCount_def countProcessor_def showNat.simps digitChar_def)
  with b2 have "map blockRows bs' = [[[''0'']]]"
    by simp
  moreover from b1 have "bs' = ppNext psp'"
    by (simp add: sampleProcessor_def)
  ultimately have B: "map blockRows (ppNext psp') = [[[''0'']]]"
    by simp
  from psp_flush_long A f B show ?thesis
    by simp
qed

end
